theory Spec2Isabelle
  imports Main "HOL-Library.Log_Nat"
begin

section \<open>Python values used by the two scripts\<close>

subsection \<open>Exceptions\<close>

text \<open>
  The exceptions that the modelled code, or a library call it makes, can raise.  A
  fallible operation returns \<open>py_error + 'a\<close>, with \<open>Inl\<close> for a raised exception.
\<close>

datatype py_error =
    ZeroDivisionError
  | ValueError
  | KeyError string
  | OSError
  | OtherError string

definition ebind :: "py_error + 'a \<Rightarrow> ('a \<Rightarrow> py_error + 'b) \<Rightarrow> py_error + 'b" where
  "ebind m f = (case m of Inl e \<Rightarrow> Inl e | Inr v \<Rightarrow> f v)"

text \<open>\<^verbatim>\<open>try: body  except: handler\<close> with a bare \<^verbatim>\<open>except\<close>: every exception is caught.\<close>

definition try_except :: "py_error + 'a \<Rightarrow> (py_error + 'a) \<Rightarrow> py_error + 'a" where
  "try_except body handler = (case body of Inl e \<Rightarrow> handler | Inr v \<Rightarrow> Inr v)"

subsection \<open>Floats\<close>

text \<open>
  A Python \<^verbatim>\<open>float\<close> is an IEEE 754 binary64 number.  A finite binary64 value is a
  rational, and every arithmetic operation returns the exact result rounded to the
  nearest representable value, ties to the even significand.  \<open>rnd\<close> is that rounding:
  53 significant bits in the normal range, multiples of \<open>2 ^ - 1074\<close> below it.
  Infinities and NaN are not represented: \<open>rnd\<close> is the binary64 rounding for
  magnitudes below \<open>2 ^ 1024\<close>, which covers every value the scripts compute from
  colour channels in \<open>0..255\<close>, pixel coordinates and layout constants.
\<close>

type_synonym pyfloat = rat

definition pow2 :: "int \<Rightarrow> rat" where
  "pow2 e = (if 0 \<le> e then 2 ^ nat e else 1 / 2 ^ nat (- e))"

text \<open>The binary exponent of a positive rational: \<open>pow2 (ilog2 q) \<le> q < pow2 (ilog2 q + 1)\<close>.\<close>

definition ilog2 :: "rat \<Rightarrow> int" where
  "ilog2 q = (if 1 \<le> q then bitlen \<lfloor>q\<rfloor> - 1 else - bitlen (\<lceil>1 / q\<rceil> - 1))"

definition round_half_even :: "rat \<Rightarrow> int" where
  "round_half_even q =
     (let f = \<lfloor>q\<rfloor>; r = q - of_int f
      in if r < 1 / 2 then f else if 1 / 2 < r then f + 1 else if even f then f else f + 1)"

definition rnd :: "rat \<Rightarrow> pyfloat" where
  "rnd q =
     (if q = 0 then 0
      else let e = max (ilog2 \<bar>q\<bar> - 52) (- 1074)
           in of_int (round_half_even (q / pow2 e)) * pow2 e)"

text \<open>\<^verbatim>\<open>float(n)\<close>, the implicit conversion of an \<^verbatim>\<open>int\<close> operand in mixed arithmetic.\<close>

definition int_to_float :: "int \<Rightarrow> pyfloat" where
  "int_to_float n = rnd (of_int n)"

text \<open>A float literal of the source, such as \<^verbatim>\<open>0.1\<close>, written as the decimal fraction it denotes.\<close>

definition float_lit :: "rat \<Rightarrow> pyfloat" where
  "float_lit q = rnd q"

definition fadd :: "pyfloat \<Rightarrow> pyfloat \<Rightarrow> pyfloat" where
  "fadd a b = rnd (a + b)"

definition fsub :: "pyfloat \<Rightarrow> pyfloat \<Rightarrow> pyfloat" where
  "fsub a b = rnd (a - b)"

definition fmul :: "pyfloat \<Rightarrow> pyfloat \<Rightarrow> pyfloat" where
  "fmul a b = rnd (a * b)"

text \<open>\<^verbatim>\<open>a / b\<close> on two \<^verbatim>\<open>int\<close>s: true division, correctly rounded; raises on a zero divisor.\<close>

definition py_truediv :: "int \<Rightarrow> int \<Rightarrow> py_error + pyfloat" where
  "py_truediv a b = (if b = 0 then Inl ZeroDivisionError else Inr (rnd (of_int a / of_int b)))"

text \<open>\<^verbatim>\<open>int(f)\<close> on a float: truncation towards zero.\<close>

definition py_int :: "pyfloat \<Rightarrow> int" where
  "py_int f = (if 0 \<le> f then \<lfloor>f\<rfloor> else \<lceil>f\<rceil>)"

text \<open>\<^verbatim>\<open>range(n)\<close>: empty when \<open>n \<le> 0\<close>.\<close>

definition py_range :: "int \<Rightarrow> int list" where
  "py_range n = [0..n - 1]"

text \<open>\<^verbatim>\<open>sep.join(xs)\<close>.\<close>

fun join :: "string \<Rightarrow> string list \<Rightarrow> string" where
  "join sep [] = []"
| "join sep [x] = x"
| "join sep (x # y # ys) = x @ sep @ join sep (y # ys)"

text \<open>\<^verbatim>\<open>str(n)\<close> for a natural number.\<close>

fun str_nat :: "nat \<Rightarrow> string" where
  "str_nat n =
     (if n < 10 then [char_of (48 + n)] else str_nat (n div 10) @ [char_of (48 + n mod 10)])"

text \<open>\<^verbatim>\<open>os.path.join(a, b)\<close> on POSIX: an absolute second component replaces the first.\<close>

definition path_join :: "string \<Rightarrow> string \<Rightarrow> string" where
  "path_join a b =
     (if b \<noteq> [] \<and> hd b = CHR ''/'' then b
      else if a = [] \<or> last a = CHR ''/'' then a @ b
      else a @ ''/'' @ b)"

section \<open>The image script\<close>

subsection \<open>Images and the drawing interface\<close>

text \<open>
  The imaging library is not part of the repository.  An image is its size, the pixel
  buffer as the point writes leave it, and the trace of the shape and text calls
  made on it afterwards, in order; their rasterisation is the library's and is not
  interpreted.  Coordinates of shapes are numbers (\<^verbatim>\<open>int\<close> or \<^verbatim>\<open>float\<close>), kept by value.
\<close>

type_synonym rgb = "int \<times> int \<times> int"

datatype font = TrueType string int | DefaultFont

datatype draw_op =
    Ellipse "rat \<times> rat \<times> rat \<times> rat" rgb
  | Line "(rat \<times> rat) \<times> (rat \<times> rat)" rgb int
  | Text "int \<times> int" string font "int list"
  | Rectangle "int \<times> int \<times> int \<times> int" rgb int

record image =
  img_width :: int
  img_height :: int
  img_px :: "int \<times> int \<Rightarrow> rgb"
  img_ops :: "draw_op list"

text \<open>\<^verbatim>\<open>Image.new("RGB", (width, height))\<close>: a black buffer; a negative side is refused.\<close>

definition Image_new :: "int \<times> int \<Rightarrow> py_error + image" where
  "Image_new sz =
     (case sz of (w, h) \<Rightarrow>
        if w < 0 \<or> h < 0 then Inl ValueError
        else Inr \<lparr>img_width = w, img_height = h, img_px = (\<lambda>_. (0, 0, 0)), img_ops = []\<rparr>)"

text \<open>A colour handed to the library is stored with each channel clamped to \<open>0..255\<close>.\<close>

definition clip8 :: "int \<Rightarrow> int" where
  "clip8 v = (if v \<le> 0 then 0 else if v < 256 then v else 255)"

definition clip_rgb :: "rgb \<Rightarrow> rgb" where
  "clip_rgb c = (case c of (r, g, b) \<Rightarrow> (clip8 r, clip8 g, clip8 b))"

text \<open>\<^verbatim>\<open>draw.point((x, y), fill=c)\<close>: writes one pixel; a point outside the buffer is dropped.\<close>

definition draw_point :: "image \<Rightarrow> int \<times> int \<Rightarrow> rgb \<Rightarrow> image" where
  "draw_point img p c =
     (case p of (x, y) \<Rightarrow>
        if 0 \<le> x \<and> x < img_width img \<and> 0 \<le> y \<and> y < img_height img
        then img\<lparr>img_px := (img_px img)(p := clip_rgb c)\<rparr>
        else img)"

definition draw_op_add :: "image \<Rightarrow> draw_op \<Rightarrow> image" where
  "draw_op_add img op = img\<lparr>img_ops := img_ops img @ [op]\<rparr>"

text \<open>
  \<^verbatim>\<open>draw.rectangle([x0, y0, x1, y1], outline=c, width=n)\<close>: the library refuses a box whose
  second corner lies before the first.
\<close>

definition draw_rectangle ::
  "image \<Rightarrow> int \<times> int \<times> int \<times> int \<Rightarrow> rgb \<Rightarrow> int \<Rightarrow> py_error + image" where
  "draw_rectangle img box outline n =
     (case box of (x0, y0, x1, y1) \<Rightarrow>
        if x1 < x0 \<or> y1 < y0 then Inl ValueError
        else Inr (draw_op_add img (Rectangle box outline n)))"

subsection \<open>\<^verbatim>\<open>create_gradient\<close>\<close>

text \<open>Lines 58-64: the interpolation parameter of the pixel \<open>(x, y)\<close>.\<close>

definition gradient_ratio :: "string \<Rightarrow> int \<Rightarrow> int \<Rightarrow> int \<Rightarrow> int \<Rightarrow> py_error + pyfloat" where
  "gradient_ratio direction width height x y =
     (if direction = ''diagonal'' then py_truediv (x + y) (width + height)
      else if direction = ''vertical'' then py_truediv y height
      else py_truediv x width)"

text \<open>Lines 66-68: \<^verbatim>\<open>int(c1 * (1 - ratio) + c2 * ratio)\<close> for one channel.\<close>

definition blend :: "int \<Rightarrow> int \<Rightarrow> pyfloat \<Rightarrow> int" where
  "blend c1 c2 ratio =
     py_int (fadd (fmul (int_to_float c1) (fsub (int_to_float 1) ratio))
                  (fmul (int_to_float c2) ratio))"

definition blend_rgb :: "rgb \<Rightarrow> rgb \<Rightarrow> pyfloat \<Rightarrow> rgb" where
  "blend_rgb color1 color2 ratio =
     (case color1 of (r1, g1, b1) \<Rightarrow> case color2 of (r2, g2, b2) \<Rightarrow>
        (blend r1 r2 ratio, blend g1 g2 ratio, blend b1 b2 ratio))"

text \<open>An RGB colour has its three channels in \<open>0..255\<close>.\<close>

definition is_rgb :: "rgb \<Rightarrow> bool" where
  "is_rgb c = (case c of (r, g, b) \<Rightarrow>
     0 \<le> r \<and> r \<le> 255 \<and> 0 \<le> g \<and> g \<le> 255 \<and> 0 \<le> b \<and> b \<le> 255)"

text \<open>The inner loop \<^verbatim>\<open>for x in range(width)\<close> of one row \<open>y\<close>.\<close>

fun gradient_row ::
  "string \<Rightarrow> int \<Rightarrow> int \<Rightarrow> rgb \<Rightarrow> rgb \<Rightarrow> int \<Rightarrow> image \<Rightarrow> int list \<Rightarrow> py_error + image" where
  "gradient_row direction width height color1 color2 y img [] = Inr img"
| "gradient_row direction width height color1 color2 y img (x # xs) =
     (case gradient_ratio direction width height x y of
        Inl e \<Rightarrow> Inl e
      | Inr ratio \<Rightarrow>
          gradient_row direction width height color1 color2 y
            (draw_point img (x, y) (blend_rgb color1 color2 ratio)) xs)"

text \<open>The outer loop \<^verbatim>\<open>for y in range(height)\<close>.\<close>

fun gradient_rows ::
  "string \<Rightarrow> int \<Rightarrow> int \<Rightarrow> rgb \<Rightarrow> rgb \<Rightarrow> image \<Rightarrow> int list \<Rightarrow> py_error + image" where
  "gradient_rows direction width height color1 color2 img [] = Inr img"
| "gradient_rows direction width height color1 color2 img (y # ys) =
     (case gradient_row direction width height color1 color2 y img (py_range width) of
        Inl e \<Rightarrow> Inl e
      | Inr img' \<Rightarrow> gradient_rows direction width height color1 color2 img' ys)"

definition create_gradient :: "int \<Rightarrow> int \<Rightarrow> rgb \<Rightarrow> rgb \<Rightarrow> string \<Rightarrow> py_error + image" where
  "create_gradient width height color1 color2 direction =
     ebind (Image_new (width, height))
       (\<lambda>image. gradient_rows direction width height color1 color2 image (py_range height))"

subsection \<open>The catalogue and the palettes\<close>

record product =
  slug :: string
  name :: string
  grade :: string

definition PRODUCTS_images :: "product list" where
  "PRODUCTS_images =
     [\<lparr>slug = ''premium-ceremonial-uji'', name = ''Premium Ceremonial Uji'', grade = ''Ceremonial''\<rparr>,
      \<lparr>slug = ''organic-culinary-nishio'', name = ''Organic Culinary Nishio'', grade = ''Culinary''\<rparr>,
      \<lparr>slug = ''classic-usucha-blend'', name = ''Classic Usucha Blend'', grade = ''Premium''\<rparr>,
      \<lparr>slug = ''first-harvest-shincha'', name = ''First Harvest Shincha'', grade = ''Ceremonial''\<rparr>,
      \<lparr>slug = ''daily-matcha-kagoshima'', name = ''Daily Matcha Kagoshima'', grade = ''Culinary''\<rparr>,
      \<lparr>slug = ''competition-grade-uji'', name = ''Competition Grade Uji'', grade = ''Competition''\<rparr>,
      \<lparr>slug = ''organic-ceremonial-kyoto'', name = ''Organic Ceremonial Kyoto'', grade = ''Ceremonial''\<rparr>,
      \<lparr>slug = ''cafe-blend-matcha'', name = ''Cafe Blend Matcha'', grade = ''Culinary''\<rparr>]"

record palette =
  primary :: rgb
  secondary :: rgb
  accent :: rgb

definition GRADE_COLORS :: "(string \<times> palette) list" where
  "GRADE_COLORS =
     [(''Ceremonial'', \<lparr>primary = (76, 140, 74), secondary = (144, 190, 109), accent = (45, 90, 39)\<rparr>),
      (''Premium'', \<lparr>primary = (85, 150, 80), secondary = (160, 200, 120), accent = (50, 100, 45)\<rparr>),
      (''Culinary'', \<lparr>primary = (100, 160, 90), secondary = (170, 210, 130), accent = (60, 110, 50)\<rparr>),
      (''Competition'', \<lparr>primary = (60, 120, 60), secondary = (130, 180, 100), accent = (35, 80, 30)\<rparr>)]"

text \<open>\<^verbatim>\<open>d[k]\<close> raises \<^verbatim>\<open>KeyError\<close> on a missing key; \<^verbatim>\<open>d.get(k, default)\<close> does not.\<close>

definition dict_getitem :: "(string \<times> 'v) list \<Rightarrow> string \<Rightarrow> py_error + 'v" where
  "dict_getitem d k = (case map_of d k of None \<Rightarrow> Inl (KeyError k) | Some v \<Rightarrow> Inr v)"

definition dict_get :: "(string \<times> 'v) list \<Rightarrow> string \<Rightarrow> 'v \<Rightarrow> 'v" where
  "dict_get d k dflt = (case map_of d k of None \<Rightarrow> dflt | Some v \<Rightarrow> v)"

text \<open>
  Line 115, \<^verbatim>\<open>GRADE_COLORS.get(grade, GRADE_COLORS["Premium"])\<close>: the default is looked up
  first, as Python evaluates the arguments before the call.
\<close>

definition grade_colors :: "string \<Rightarrow> py_error + palette" where
  "grade_colors g =
     ebind (dict_getitem GRADE_COLORS ''Premium'') (\<lambda>dflt. Inr (dict_get GRADE_COLORS g dflt))"

subsection \<open>What the script takes from its environment\<close>

text \<open>
  \<^item> \<open>truetype path size\<close> is \<^verbatim>\<open>ImageFont.truetype(path, size)\<close>: it depends on the font
    files of the machine and may raise anything.
  \<^item> \<open>textbbox xy text font\<close> is \<^verbatim>\<open>draw.textbbox(xy, text, font=font)\<close>, the library's
    text measurement.
  \<^item> \<open>powder_sample d i\<close> stands for the draws of the \<open>i\<close>-th iteration of the texture loop
    from the generator seeded with 42: \<^verbatim>\<open>dist * math.cos(angle)\<close>, \<^verbatim>\<open>dist * math.sin(angle)\<close>,
    \<^verbatim>\<open>random.randint(2, 5)\<close> and \<^verbatim>\<open>random.random()\<close>, where \<open>d\<close> is the upper bound
    \<^verbatim>\<open>radius * 0.8\<close> of \<^verbatim>\<open>dist\<close>.
  \<^item> \<open>resample img size\<close> is the pixel buffer that the library's resampling filter gives
    the picture \<open>img\<close> at the new size.
\<close>

record pil_env =
  truetype :: "string \<Rightarrow> int \<Rightarrow> py_error + font"
  textbbox :: "int \<times> int \<Rightarrow> string \<Rightarrow> font \<Rightarrow> int \<times> int \<times> int \<times> int"
  powder_sample :: "pyfloat \<Rightarrow> nat \<Rightarrow> pyfloat \<times> pyfloat \<times> int \<times> pyfloat"
  resample :: "image \<Rightarrow> int \<times> int \<Rightarrow> int \<times> int \<Rightarrow> rgb"

text \<open>\<^verbatim>\<open>ImageFont.load_default()\<close>: the font built into the library.\<close>

definition load_default :: font where
  "load_default = DefaultFont"

definition FONT_BOLD :: string where
  "FONT_BOLD = ''/usr/share/fonts/truetype/dejavu/DejaVuSans-Bold.ttf''"

definition FONT_REGULAR :: string where
  "FONT_REGULAR = ''/usr/share/fonts/truetype/dejavu/DejaVuSans.ttf''"

subsection \<open>\<^verbatim>\<open>draw_matcha_powder_circle\<close> and \<^verbatim>\<open>draw_tea_leaves\<close>\<close>

definition map_rgb :: "(int \<Rightarrow> int) \<Rightarrow> rgb \<Rightarrow> rgb" where
  "map_rgb f c = (case c of (r, g, b) \<Rightarrow> (f r, f g, f b))"

text \<open>Lines 91-97: one iteration of the texture loop.\<close>

definition powder_dot ::
  "pil_env \<Rightarrow> int \<Rightarrow> int \<Rightarrow> int \<Rightarrow> rgb \<Rightarrow> rgb \<Rightarrow> image \<Rightarrow> nat \<Rightarrow> image" where
  "powder_dot env center_x center_y radius lighter darker img i =
     (case powder_sample env (fmul (int_to_float radius) (float_lit (8 / 10))) i of
        (dx, dy, sz, coin) \<Rightarrow>
          let x = fadd (int_to_float center_x) dx;
              y = fadd (int_to_float center_y) dy;
              dot_color = (if 1 / 2 < coin then lighter else darker)
          in draw_op_add img
               (Ellipse (fsub x (int_to_float sz), fsub y (int_to_float sz),
                         fadd x (int_to_float sz), fadd y (int_to_float sz)) dot_color))"

definition draw_matcha_powder_circle ::
  "pil_env \<Rightarrow> image \<Rightarrow> int \<Rightarrow> int \<Rightarrow> int \<Rightarrow> rgb \<Rightarrow> image" where
  "draw_matcha_powder_circle env img center_x center_y radius color =
     (let img1 = draw_op_add img
                   (Ellipse (of_int (center_x - radius), of_int (center_y - radius),
                             of_int (center_x + radius), of_int (center_y + radius)) color);
          lighter = map_rgb (\<lambda>c. min 255 (c + 30)) color;
          darker = map_rgb (\<lambda>c. max 0 (c - 20)) color
      in foldl (powder_dot env center_x center_y radius lighter darker) img1 [0..<50])"

definition draw_tea_leaves :: "image \<Rightarrow> pyfloat \<Rightarrow> pyfloat \<Rightarrow> int \<Rightarrow> rgb \<Rightarrow> image" where
  "draw_tea_leaves img x y sz color =
     (let leaf_color = map_rgb (\<lambda>c. max 0 (c - 30)) color;
          img1 = draw_op_add img
                   (Ellipse (x, y, fadd x (int_to_float (sz * 2)), fadd y (int_to_float sz))
                      leaf_color)
      in draw_op_add img1
           (Line ((fadd x (int_to_float sz), fadd y (int_to_float (sz div 2))),
                  (fadd x (int_to_float sz), fadd (fadd y (int_to_float sz)) (int_to_float 10)))
              leaf_color 2))"

subsection \<open>\<^verbatim>\<open>generate_product_image\<close>\<close>

text \<open>Lines 133-139: the preferred pair of fonts, or the built-in font for both.\<close>

definition load_fonts :: "pil_env \<Rightarrow> py_error + font \<times> font" where
  "load_fonts env =
     try_except
       (ebind (truetype env FONT_BOLD 36) (\<lambda>font_large.
        ebind (truetype env FONT_REGULAR 24) (\<lambda>font_small.
        Inr (font_large, font_small))))
       (Inr (load_default, load_default))"

text \<open>Lines 117-164: everything after the palette has been chosen.\<close>

definition compose_product_image ::
  "pil_env \<Rightarrow> product \<Rightarrow> int \<times> int \<Rightarrow> palette \<Rightarrow> py_error + image" where
  "compose_product_image env product sz colors =
     (case sz of (width, height) \<Rightarrow>
      ebind (create_gradient width height (secondary colors) (primary colors) ''diagonal'')
        (\<lambda>image.
      let center_x = width div 2;
          center_y = height div 2 - 50;
          powder_radius = min width height div 4;
          image = draw_matcha_powder_circle env image center_x center_y powder_radius
                    (accent colors);
          image = draw_tea_leaves image (fmul (int_to_float width) (float_lit (1 / 10)))
                    (fmul (int_to_float height) (float_lit (1 / 10))) 30 (primary colors);
          image = draw_tea_leaves image (fmul (int_to_float width) (float_lit (8 / 10)))
                    (fmul (int_to_float height) (float_lit (15 / 100))) 25 (primary colors);
          image = draw_tea_leaves image (fmul (int_to_float width) (float_lit (15 / 100)))
                    (fmul (int_to_float height) (float_lit (8 / 10))) 20 (primary colors);
          image = draw_tea_leaves image (fmul (int_to_float width) (float_lit (75 / 100)))
                    (fmul (int_to_float height) (float_lit (85 / 100))) 28 (primary colors)
      in ebind (load_fonts env) (\<lambda>fonts. case fonts of (font_large, font_small) \<Rightarrow>
      let bbox = textbbox env (0, 0) (name product) font_large;
          text_width = fst (snd (snd bbox)) - fst bbox;
          text_x = (width - text_width) div 2;
          text_y = height - 150;
          image = draw_op_add image
                    (Text (text_x + 2, text_y + 2) (name product) font_large [0, 0, 0, 128]);
          image = draw_op_add image
                    (Text (text_x, text_y) (name product) font_large [255, 255, 255]);
          grade_text = ''Grade: '' @ grade product;
          bbox = textbbox env (0, 0) grade_text font_small;
          grade_width = fst (snd (snd bbox)) - fst bbox;
          grade_x = (width - grade_width) div 2;
          image = draw_op_add image
                    (Text (grade_x, text_y + 50) grade_text font_small [255, 255, 255, 200]);
          border_color = accent colors
      in draw_rectangle image (0, 0, width - 1, height - 1) border_color 3)))"

definition generate_product_image :: "pil_env \<Rightarrow> product \<Rightarrow> int \<times> int \<Rightarrow> py_error + image" where
  "generate_product_image env product sz =
     ebind (grade_colors (grade product)) (compose_product_image env product sz)"

subsection \<open>Files and console\<close>

text \<open>
  The part of the machine a script acts on: the directories known to exist, the file
  writes performed, oldest first, and the lines printed.  A later write to a path
  replaces the earlier file, so the directory listing is read off the writes from the
  newest to the oldest.  Text is kept as its UTF-8 bytes.
\<close>

record 'f world =
  dirs :: "string set"
  writes :: "(string \<times> 'f) list"
  stdout :: "string list"

definition files :: "'f world \<Rightarrow> string \<rightharpoonup> 'f" where
  "files w = map_of (rev (writes w))"

text \<open>The directory part of a path: what precedes its last slash.\<close>

definition parent_dir :: "string \<Rightarrow> string" where
  "parent_dir path = rev (tl (dropWhile (\<lambda>c. c \<noteq> CHR ''/'') (rev path)))"

text \<open>
  Creating or replacing a file: opening it raises when its directory does not exist.  No
  other failure of the file system (permissions, a full disk) is represented.
\<close>

definition write_file :: "'f world \<Rightarrow> string \<Rightarrow> 'f \<Rightarrow> py_error + 'f world" where
  "write_file w path f =
     (if parent_dir path \<in> dirs w then Inr (w\<lparr>writes := writes w @ [(path, f)]\<rparr>)
      else Inl OSError)"

definition print :: "'f world \<Rightarrow> string \<Rightarrow> 'f world" where
  "print w line = w\<lparr>stdout := stdout w @ [line]\<rparr>"

text \<open>\<^verbatim>\<open>os.makedirs(path, exist_ok=True)\<close>.\<close>

definition makedirs :: "'f world \<Rightarrow> string \<Rightarrow> 'f world" where
  "makedirs w path = w\<lparr>dirs := insert path (dirs w)\<rparr>"

record saved_image =
  file_image :: image
  file_format :: string
  file_quality :: int

text \<open>\<^verbatim>\<open>image.save(path, format, quality=q)\<close>.\<close>

definition Image_save ::
  "saved_image world \<Rightarrow> image \<Rightarrow> string \<Rightarrow> string \<Rightarrow> int \<Rightarrow> py_error + saved_image world" where
  "Image_save w img path fmt q =
     write_file w path \<lparr>file_image = img, file_format = fmt, file_quality = q\<rparr>"

subsection \<open>Thumbnails\<close>

text \<open>
  Modelled from the spec: \<^verbatim>\<open>Image.thumbnail\<close> belongs to the imaging library and is not
  under \<^verbatim>\<open>src/\<close>.  The spec describes it as proportional downscaling to fit within the
  box while preserving the aspect ratio within rounding: a picture that fits is left as it
  is; otherwise the side that overflows the box more is set to the box and the other side
  is scaled by the same factor, rounded down, and kept at least one pixel.
\<close>

definition thumbnail_size :: "int \<times> int \<Rightarrow> int \<times> int \<Rightarrow> int \<times> int" where
  "thumbnail_size sz box =
     (case sz of (w, h) \<Rightarrow> case box of (bw, bh) \<Rightarrow>
        if w \<le> bw \<and> h \<le> bh then (w, h)
        else if h * bw \<le> w * bh then (bw, max 1 (h * bw div w))
        else (max 1 (w * bh div h), bh))"

text \<open>Lines 182-183: \<^verbatim>\<open>thumbnail = image.copy(); thumbnail.thumbnail(box)\<close>.\<close>

definition Image_thumbnail :: "pil_env \<Rightarrow> image \<Rightarrow> int \<times> int \<Rightarrow> image" where
  "Image_thumbnail env img box =
     (let sz = thumbnail_size (img_width img, img_height img) box
      in if sz = (img_width img, img_height img) then img
         else \<lparr>img_width = fst sz, img_height = snd sz, img_px = resample env img sz,
               img_ops = []\<rparr>)"

subsection \<open>\<^verbatim>\<open>main\<close> of the image script\<close>

definition OUTPUT_DIR_images :: string where
  "OUTPUT_DIR_images = ''/home/claude/matcha-setup/images''"

text \<open>The check mark and the tick box of the progress lines, as UTF-8.\<close>

definition CHECK_MARK :: string where
  "CHECK_MARK = [CHR 0xE2, CHR 0x9C, CHR 0x93]"

definition CHECK_BOX :: string where
  "CHECK_BOX = [CHR 0xE2, CHR 0x9C, CHR 0x85]"

text \<open>Lines 174-187: the body of \<^verbatim>\<open>for product in PRODUCTS\<close>.\<close>

definition save_product_images ::
  "pil_env \<Rightarrow> saved_image world \<Rightarrow> product \<Rightarrow> py_error + saved_image world" where
  "save_product_images env w product =
     ebind (generate_product_image env product (800, 800)) (\<lambda>image.
       let filename = slug product @ ''.jpg'';
           filepath = path_join OUTPUT_DIR_images filename
       in ebind (Image_save w image filepath ''JPEG'' 90) (\<lambda>w.
       let w = print w (''  '' @ CHECK_MARK @ '' Created: '' @ filename);
           thumbnail = Image_thumbnail env image (400, 400);
           thumb_filename = slug product @ ''-thumb.jpg'';
           thumb_filepath = path_join OUTPUT_DIR_images thumb_filename
       in ebind (Image_save w thumbnail thumb_filepath ''JPEG'' 85) (\<lambda>w.
       Inr (print w (''  '' @ CHECK_MARK @ '' Created: '' @ thumb_filename)))))"

fun products_loop ::
  "pil_env \<Rightarrow> saved_image world \<Rightarrow> product list \<Rightarrow> py_error + saved_image world" where
  "products_loop env w [] = Inr w"
| "products_loop env w (product # rest) =
     (case save_product_images env w product of
        Inl e \<Rightarrow> Inl e
      | Inr w' \<Rightarrow> products_loop env w' rest)"

text \<open>Lines 190-203: the placeholder picture.\<close>

definition save_placeholder ::
  "pil_env \<Rightarrow> saved_image world \<Rightarrow> py_error + saved_image world" where
  "save_placeholder env w =
     ebind (create_gradient 800 800 (200, 200, 200) (150, 150, 150) ''diagonal'') (\<lambda>placeholder.
     ebind (try_except (truetype env FONT_REGULAR 48) (Inr load_default)) (\<lambda>font.
       let text = ''Image Coming Soon'';
           bbox = textbbox env (0, 0) text font;
           text_width = fst (snd (snd bbox)) - fst bbox;
           placeholder = draw_op_add placeholder
                           (Text ((800 - text_width) div 2, 380) text font [100, 100, 100])
       in ebind (Image_save w placeholder (path_join OUTPUT_DIR_images ''placeholder.jpg'')
                   ''JPEG'' 85) (\<lambda>w.
       Inr (print w (''  '' @ CHECK_MARK @ '' Created: placeholder.jpg'')))))"

text \<open>
  \<^verbatim>\<open>main\<close>, with the module's catalogue as an argument; the script runs it on
  \<open>PRODUCTS_images\<close>.
\<close>

definition run_images ::
  "pil_env \<Rightarrow> product list \<Rightarrow> saved_image world \<Rightarrow> py_error + saved_image world" where
  "run_images env products w =
     (let w = makedirs w OUTPUT_DIR_images;
          w = print w ''Generating product images...''
      in ebind (products_loop env w products) (\<lambda>w.
         ebind (save_placeholder env w) (\<lambda>w.
           Inr (print w ([CHR 0x0A] @ CHECK_BOX @ '' Generated ''
                  @ str_nat (length products * 2 + 1) @ '' images in '' @ OUTPUT_DIR_images)))))"

definition main_images :: "pil_env \<Rightarrow> saved_image world \<Rightarrow> py_error + saved_image world" where
  "main_images env w = run_images env PRODUCTS_images w"

section \<open>The specification sheet script\<close>

subsection \<open>The catalogue\<close>

record spec_product = product +
  region :: string
  origin :: string
  harvest :: string
  cultivation :: string
  processing :: string
  mesh :: string
  color :: string
  flavor :: string
  aroma :: string
  caffeine :: string
  l_theanine :: string
  catechins :: string
  shelf_life :: string
  storage :: string
  certifications :: "string list"
  uses :: "string list"
  moq :: string
  lead_time :: string
  price_range :: string

definition PRODUCTS_pdfs :: "spec_product list" where
  "PRODUCTS_pdfs =
     [\<lparr>slug = ''premium-ceremonial-uji'', name = ''Premium Ceremonial Uji'',
       grade = ''Ceremonial'', region = ''Uji, Kyoto'', origin = ''Japan'',
       harvest = ''First Harvest (Ichibancha)'', cultivation = ''Shade-grown (20+ days)'',
       processing = ''Stone-ground'', mesh = ''1000+ mesh'', color = ''Vibrant green'',
       flavor = ''Rich umami, subtle sweetness, no bitterness'',
       aroma = ''Fresh, grassy, vegetal'', caffeine = ''~34mg per gram'',
       l_theanine = ''~20mg per gram'', catechins = ''~100mg per gram'',
       shelf_life = ''12 months (unopened), 1 month (opened)'',
       storage = ''Cool, dry place away from light. Refrigerate after opening.'',
       certifications = [''JAS Organic'', ''USDA Organic'', ''EU Organic''],
       uses = [''Traditional tea ceremony'', ''Usucha preparation'', ''Premium beverages''],
       moq = ''5 kg'', lead_time = ''14 days'', price_range = ''$80-120 per kg''\<rparr>,
      \<lparr>slug = ''organic-culinary-nishio'', name = ''Organic Culinary Nishio'',
       grade = ''Culinary'', region = ''Nishio, Aichi'', origin = ''Japan'',
       harvest = ''Second/Third Harvest'', cultivation = ''Shade-grown (14 days)'',
       processing = ''Stone-ground'', mesh = ''800 mesh'', color = ''Yellow-green'',
       flavor = ''Strong, slightly bitter, robust'', aroma = ''Earthy, vegetal'',
       caffeine = ''~32mg per gram'', l_theanine = ''~14mg per gram'',
       catechins = ''~120mg per gram'', shelf_life = ''18 months (unopened), 2 months (opened)'',
       storage = ''Cool, dry place away from light.'',
       certifications = [''JAS Organic'', ''USDA Organic''],
       uses = [''Baking'', ''Smoothies'', ''Lattes'', ''Ice cream'', ''Cooking''],
       moq = ''10 kg'', lead_time = ''10 days'', price_range = ''$25-45 per kg''\<rparr>,
      \<lparr>slug = ''classic-usucha-blend'', name = ''Classic Usucha Blend'',
       grade = ''Premium'', region = ''Uji, Kyoto'', origin = ''Japan'',
       harvest = ''First Harvest (Ichibancha)'', cultivation = ''Shade-grown (18 days)'',
       processing = ''Stone-ground'', mesh = ''900 mesh'', color = ''Bright green'',
       flavor = ''Balanced umami and sweetness'', aroma = ''Fresh, slightly sweet'',
       caffeine = ''~33mg per gram'', l_theanine = ''~18mg per gram'',
       catechins = ''~105mg per gram'', shelf_life = ''12 months (unopened), 1 month (opened)'',
       storage = ''Cool, dry place away from light. Refrigerate after opening.'',
       certifications = [''JAS Organic''],
       uses = [''Daily usucha'', ''Premium lattes'', ''Desserts''], moq = ''5 kg'',
       lead_time = ''12 days'', price_range = ''$50-70 per kg''\<rparr>,
      \<lparr>slug = ''first-harvest-shincha'', name = ''First Harvest Shincha'',
       grade = ''Ceremonial'', region = ''Shizuoka'', origin = ''Japan'',
       harvest = ''First Harvest (Ichibancha) - Spring'',
       cultivation = ''Shade-grown (21 days)'', processing = ''Stone-ground, fresh processed'',
       mesh = ''1000+ mesh'', color = ''Brilliant emerald green'',
       flavor = ''Exceptionally sweet, deep umami'',
       aroma = ''Fresh spring grass, floral notes'', caffeine = ''~35mg per gram'',
       l_theanine = ''~22mg per gram'', catechins = ''~95mg per gram'',
       shelf_life = ''6 months (unopened), 2 weeks (opened)'',
       storage = ''Refrigerate immediately. Consume quickly for best flavor.'',
       certifications = [''JAS Organic'', ''Single Origin''],
       uses = [''Tea ceremony'', ''Special occasions'', ''Koicha preparation''], moq = ''2 kg'',
       lead_time = ''7 days (seasonal availability)'', price_range = ''$120-180 per kg''\<rparr>,
      \<lparr>slug = ''daily-matcha-kagoshima'', name = ''Daily Matcha Kagoshima'',
       grade = ''Culinary'', region = ''Kagoshima'', origin = ''Japan'',
       harvest = ''Second Harvest'', cultivation = ''Partial shade (10 days)'',
       processing = ''Stone-ground'', mesh = ''600 mesh'', color = ''Green with yellow tones'',
       flavor = ''Mild, slightly astringent'', aroma = ''Light, grassy'',
       caffeine = ''~30mg per gram'', l_theanine = ''~12mg per gram'',
       catechins = ''~130mg per gram'', shelf_life = ''24 months (unopened), 3 months (opened)'',
       storage = ''Cool, dry place.'', certifications = [],
       uses = [''Daily beverages'', ''Commercial food production'', ''Bulk cooking''],
       moq = ''25 kg'', lead_time = ''7 days'', price_range = ''$15-25 per kg''\<rparr>,
      \<lparr>slug = ''competition-grade-uji'', name = ''Competition Grade Uji'',
       grade = ''Competition'', region = ''Uji, Kyoto'', origin = ''Japan'',
       harvest = ''First Harvest, Hand-picked'',
       cultivation = ''Traditional shade-grown (25+ days)'',
       processing = ''Hand-picked, stone-ground by master'', mesh = ''1200+ mesh (ultra-fine)'',
       color = ''Deep vibrant jade green'',
       flavor = ''Complex umami, natural sweetness, zero bitterness'',
       aroma = ''Intensely fresh, complex vegetal notes'', caffeine = ''~36mg per gram'',
       l_theanine = ''~25mg per gram'', catechins = ''~90mg per gram'',
       shelf_life = ''6 months (unopened), 2 weeks (opened)'',
       storage = ''Refrigerate. Use nitrogen-flushed container.'',
       certifications = [''JAS Organic'', ''Award Winner'', ''Single Estate''],
       uses = [''Competition'', ''Tea ceremony masters'', ''Ultra-premium service''],
       moq = ''1 kg'', lead_time = ''21 days (limited availability)'',
       price_range = ''$200-400 per kg''\<rparr>,
      \<lparr>slug = ''organic-ceremonial-kyoto'', name = ''Organic Ceremonial Kyoto'',
       grade = ''Ceremonial'', region = ''Kyoto'', origin = ''Japan'',
       harvest = ''First Harvest (Ichibancha)'', cultivation = ''Organic shade-grown (20 days)'',
       processing = ''Stone-ground'', mesh = ''1000 mesh'', color = ''Vivid green'',
       flavor = ''Smooth umami, gentle sweetness'', aroma = ''Clean, fresh, slightly marine'',
       caffeine = ''~34mg per gram'', l_theanine = ''~19mg per gram'',
       catechins = ''~98mg per gram'', shelf_life = ''12 months (unopened), 1 month (opened)'',
       storage = ''Cool, dry place away from light. Refrigerate after opening.'',
       certifications = [''JAS Organic'', ''USDA Organic'', ''EU Organic'', ''Kosher''],
       uses = [''Tea ceremony'', ''Premium beverages'', ''Health-conscious consumers''],
       moq = ''5 kg'', lead_time = ''14 days'', price_range = ''$90-130 per kg''\<rparr>,
      \<lparr>slug = ''cafe-blend-matcha'', name = ''Cafe Blend Matcha'', grade = ''Culinary'',
       region = ''Nishio, Aichi'', origin = ''Japan'', harvest = ''Blended harvests'',
       cultivation = ''Mixed cultivation'',
       processing = ''Stone-ground, blended for consistency'', mesh = ''700 mesh'',
       color = ''Consistent green'', flavor = ''Bold, stands up to milk and sweeteners'',
       aroma = ''Robust, earthy'', caffeine = ''~31mg per gram'',
       l_theanine = ''~13mg per gram'', catechins = ''~115mg per gram'',
       shelf_life = ''18 months (unopened), 3 months (opened)'', storage = ''Cool, dry place.'',
       certifications = [''Food Service Grade''],
       uses = [''Cafe lattes'', ''Smoothies'', ''Commercial beverages'', ''Desserts''],
       moq = ''20 kg'', lead_time = ''7 days'', price_range = ''$20-35 per kg''\<rparr>]"

subsection \<open>Page blocks\<close>

text \<open>
  The document library is not part of the repository.  A document is the sequence of
  blocks handed to it: paragraphs with their style, spacers, and tables with their cells,
  column widths and style commands.  Lengths are in points, \<open>inch\<close> being 72.
\<close>

datatype colour = HexColor string | NamedColor string

datatype style_val = SNum rat | SStr string | SColour colour

datatype ParagraphStyle =
  ParagraphStyle (style_name: string) (style_parent: "string option")
    (style_attrs: "(string \<times> style_val) list")

datatype cell = CellStr string | CellPara string ParagraphStyle

type_synonym table_cmd = "string \<times> (int \<times> int) \<times> (int \<times> int) \<times> style_val list"

datatype flowable =
    Paragraph string ParagraphStyle
  | Spacer rat rat
  | Table "cell list list" "rat list" "table_cmd list"

record pdf_doc =
  doc_path :: string
  doc_pagesize :: "rat \<times> rat"
  doc_margins :: "rat \<times> rat \<times> rat \<times> rat"
  doc_story :: "flowable list"

definition inch :: pyfloat where
  "inch = 72"

definition letter :: "rat \<times> rat" where
  "letter = (612, 792)"

definition TA_CENTER :: rat where
  "TA_CENTER = 1"

definition MATCHA_GREEN :: colour where
  "MATCHA_GREEN = HexColor ''#4C8C4A''"

definition MATCHA_LIGHT :: colour where
  "MATCHA_LIGHT = HexColor ''#90BE6D''"

definition MATCHA_DARK :: colour where
  "MATCHA_DARK = HexColor ''#2D5A27''"

text \<open>Lines 238-280: the styles added to the sample style sheet.\<close>

definition ProductTitle :: ParagraphStyle where
  "ProductTitle = ParagraphStyle ''ProductTitle'' (Some ''Heading1'')
     [(''fontSize'', SNum 24), (''textColor'', SColour MATCHA_DARK), (''spaceAfter'', SNum 6),
      (''alignment'', SNum TA_CENTER)]"

definition SectionHeader :: ParagraphStyle where
  "SectionHeader = ParagraphStyle ''SectionHeader'' (Some ''Heading2'')
     [(''fontSize'', SNum 14), (''textColor'', SColour MATCHA_GREEN), (''spaceBefore'', SNum 12),
      (''spaceAfter'', SNum 6), (''borderColor'', SColour MATCHA_GREEN), (''borderWidth'', SNum 1),
      (''borderPadding'', SNum 3)]"

definition GradeLabel :: ParagraphStyle where
  "GradeLabel = ParagraphStyle ''GradeLabel'' (Some ''Normal'')
     [(''fontSize'', SNum 12), (''textColor'', SColour (NamedColor ''white'')),
      (''alignment'', SNum TA_CENTER), (''backColor'', SColour MATCHA_GREEN)]"

definition SpecBodyText :: ParagraphStyle where
  "SpecBodyText = ParagraphStyle ''SpecBodyText'' (Some ''Normal'')
     [(''fontSize'', SNum 10), (''leading'', SNum 14)]"

definition SpecSmallText :: ParagraphStyle where
  "SpecSmallText = ParagraphStyle ''SpecSmallText'' (Some ''Normal'')
     [(''fontSize'', SNum 8), (''textColor'', SColour (NamedColor ''gray''))]"

text \<open>
  The non-ASCII string literals of the script, as the UTF-8 bytes the source file holds:
  the logo glyph of the header, the mark before the certifications, the separator that
  joins list entries, and the marks of the per-item and the final progress lines.
\<close>

definition LOGO_GLYPH :: string where
  "LOGO_GLYPH = [CHR 0xEF, CHR 0xA3, CHR 0xBF, CHR 0xC3, CHR 0xBC, CHR 0xC3, CHR 0xA7, CHR 0xC2, CHR 0xB5]"

definition CERT_MARK :: string where
  "CERT_MARK = [CHR 0xE2, CHR 0x80, CHR 0x9A, CHR 0xC3, CHR 0xBA, CHR 0xC3, CHR 0xAC]"

definition BULLET_SEP :: string where
  "BULLET_SEP = '' '' @ [CHR 0xE2, CHR 0x80, CHR 0x9A, CHR 0xC3, CHR 0x84, CHR 0xC2, CHR 0xA2] @ '' ''"

definition CREATED_MARK :: string where
  "CREATED_MARK = [CHR 0xE2, CHR 0x80, CHR 0x9A, CHR 0xC3, CHR 0xBA, CHR 0xC3, CHR 0xAC]"

definition DONE_MARK :: string where
  "DONE_MARK = [CHR 0xE2, CHR 0x80, CHR 0x9A, CHR 0xC3, CHR 0xBA, CHR 0xC3, CHR 0x96]"

subsection \<open>\<^verbatim>\<open>create_spec_sheet\<close>\<close>

text \<open>The style commands shared by the label/value tables (lines 322-327 and alike).\<close>

definition label_value_style :: "table_cmd list" where
  "label_value_style =
     [(''FONTNAME'', (0, 0), (0, - 1), [SStr ''Helvetica-Bold'']),
      (''FONTSIZE'', (0, 0), (- 1, - 1), [SNum 10]),
      (''BOTTOMPADDING'', (0, 0), (- 1, - 1), [SNum 6]),
      (''TEXTCOLOR'', (0, 0), (0, - 1), [SColour MATCHA_DARK])]"

definition label_value_widths :: "rat list" where
  "label_value_widths = [fmul (float_lit (15 / 10)) inch, fmul (float_lit (55 / 10)) inch]"

text \<open>Lines 285-310: header row and subtitle.\<close>

definition header_blocks :: "spec_product \<Rightarrow> flowable list" where
  "header_blocks product =
     [Table
        [[CellPara LOGO_GLYPH
            (ParagraphStyle ''Logo'' None [(''fontSize'', SNum 36), (''alignment'', SNum TA_CENTER)]),
          CellPara (''<b>'' @ name product @ ''</b>'') ProductTitle,
          CellPara (''<b>'' @ grade product @ '' Grade</b>'') GradeLabel]]
        [fmul (int_to_float 1) inch, fmul (float_lit (45 / 10)) inch, fmul (float_lit (15 / 10)) inch]
        [(''VALIGN'', (0, 0), (- 1, - 1), [SStr ''MIDDLE'']),
         (''ALIGN'', (0, 0), (0, 0), [SStr ''CENTER'']),
         (''ALIGN'', (1, 0), (1, 0), [SStr ''CENTER'']),
         (''ALIGN'', (2, 0), (2, 0), [SStr ''CENTER'']),
         (''BACKGROUND'', (2, 0), (2, 0), [SColour MATCHA_GREEN]),
         (''TEXTCOLOR'', (2, 0), (2, 0), [SColour (NamedColor ''white'')]),
         (''BOTTOMPADDING'', (0, 0), (- 1, - 1), [SNum 10])],
      Spacer 1 (fmul (float_lit (2 / 10)) inch),
      Paragraph (''<i>Origin: '' @ region product @ '', '' @ origin product @ ''</i>'')
        (ParagraphStyle ''Subtitle'' None
           [(''fontSize'', SNum 11), (''textColor'', SColour (NamedColor ''gray'')),
            (''alignment'', SNum TA_CENTER)]),
      Spacer 1 (fmul (float_lit (3 / 10)) inch)]"

text \<open>Lines 312-384: overview, sensory profile, nutrition, storage.\<close>

definition fixed_sections :: "spec_product \<Rightarrow> flowable list" where
  "fixed_sections product =
     [Paragraph ''PRODUCT OVERVIEW'' SectionHeader,
      Table
        [[CellStr ''Harvest:'', CellStr (harvest product)],
         [CellStr ''Cultivation:'', CellStr (cultivation product)],
         [CellStr ''Processing:'', CellStr (processing product)],
         [CellStr ''Mesh Size:'', CellStr (mesh product)]]
        label_value_widths label_value_style,
      Spacer 1 (fmul (float_lit (2 / 10)) inch),
      Paragraph ''SENSORY PROFILE'' SectionHeader,
      Table
        [[CellStr ''Color:'', CellStr (color product)],
         [CellStr ''Flavor:'', CellStr (flavor product)],
         [CellStr ''Aroma:'', CellStr (aroma product)]]
        label_value_widths label_value_style,
      Spacer 1 (fmul (float_lit (2 / 10)) inch),
      Paragraph ''NUTRITIONAL INFORMATION (per gram)'' SectionHeader,
      Table
        [[CellStr ''Caffeine'', CellStr ''L-Theanine'', CellStr ''Catechins''],
         [CellStr (caffeine product), CellStr (l_theanine product), CellStr (catechins product)]]
        [fmul (float_lit (233 / 100)) inch, fmul (float_lit (233 / 100)) inch,
         fmul (float_lit (234 / 100)) inch]
        [(''BACKGROUND'', (0, 0), (- 1, 0), [SColour MATCHA_LIGHT]),
         (''FONTNAME'', (0, 0), (- 1, 0), [SStr ''Helvetica-Bold'']),
         (''FONTSIZE'', (0, 0), (- 1, - 1), [SNum 10]),
         (''ALIGN'', (0, 0), (- 1, - 1), [SStr ''CENTER'']),
         (''BOTTOMPADDING'', (0, 0), (- 1, - 1), [SNum 8]),
         (''TOPPADDING'', (0, 0), (- 1, - 1), [SNum 8]),
         (''GRID'', (0, 0), (- 1, - 1), [SNum 1, SColour MATCHA_GREEN])],
      Spacer 1 (fmul (float_lit (2 / 10)) inch),
      Paragraph ''STORAGE & SHELF LIFE'' SectionHeader,
      Table
        [[CellStr ''Shelf Life:'', CellStr (shelf_life product)],
         [CellStr ''Storage:'', CellStr (storage product)]]
        label_value_widths label_value_style,
      Spacer 1 (fmul (float_lit (2 / 10)) inch)]"

text \<open>Lines 387-391: the certifications, only for a non-empty list.\<close>

definition certifications_section :: "spec_product \<Rightarrow> flowable list" where
  "certifications_section product =
     (if certifications product \<noteq> []
      then (let certs = join BULLET_SEP (certifications product)
            in [Paragraph ''CERTIFICATIONS'' SectionHeader,
                Paragraph (CERT_MARK @ '' '' @ certs) SpecBodyText,
                Spacer 1 (fmul (float_lit (2 / 10)) inch)])
      else [])"

text \<open>Lines 394-397: the recommended uses.\<close>

definition uses_section :: "spec_product \<Rightarrow> flowable list" where
  "uses_section product =
     [Paragraph ''RECOMMENDED USES'' SectionHeader,
      Paragraph (join BULLET_SEP (uses product)) SpecBodyText,
      Spacer 1 (fmul (float_lit (2 / 10)) inch)]"

text \<open>Lines 400-427: ordering information and footer; \<open>today\<close> is the formatted current date.\<close>

definition closing_blocks :: "string \<Rightarrow> spec_product \<Rightarrow> flowable list" where
  "closing_blocks today product =
     [Paragraph ''ORDERING INFORMATION'' SectionHeader,
      Table
        [[CellStr ''Minimum Order:'', CellStr (moq product)],
         [CellStr ''Lead Time:'', CellStr (lead_time product)],
         [CellStr ''Price Range:'', CellStr (price_range product)]]
        label_value_widths
        (label_value_style @
         [(''BACKGROUND'', (0, 0), (- 1, - 1), [SColour (HexColor ''#f5f5f5'')]),
          (''BOX'', (0, 0), (- 1, - 1), [SNum 1, SColour MATCHA_GREEN])]),
      Spacer 1 (fmul (float_lit (3 / 10)) inch),
      Paragraph (''<i>Document generated: '' @ today @ '' | Matcha Trading Platform</i>'')
        SpecSmallText,
      Paragraph ''<i>For the most current information, please contact your sales representative.</i>''
        SpecSmallText]"

definition spec_story :: "string \<Rightarrow> spec_product \<Rightarrow> flowable list" where
  "spec_story today product =
     header_blocks product @ fixed_sections product @ certifications_section product
     @ uses_section product @ closing_blocks today product"

text \<open>
  \<^verbatim>\<open>create_spec_sheet\<close>: the document is built and written to \<open>output_path\<close>; an
  error of the write is not caught.
\<close>

definition create_spec_sheet ::
  "string \<Rightarrow> pdf_doc world \<Rightarrow> spec_product \<Rightarrow> string \<Rightarrow> py_error + pdf_doc world" where
  "create_spec_sheet today w product output_path =
     write_file w output_path
       \<lparr>doc_path = output_path, doc_pagesize = letter,
        doc_margins = (fmul (float_lit (75 / 100)) inch, fmul (float_lit (75 / 100)) inch,
                       fmul (float_lit (5 / 10)) inch, fmul (float_lit (5 / 10)) inch),
        doc_story = spec_story today product\<rparr>"

subsection \<open>\<^verbatim>\<open>main\<close> of the specification sheet script\<close>

definition OUTPUT_DIR_pdfs :: string where
  "OUTPUT_DIR_pdfs = ''/home/claude/matcha-setup/docs''"

text \<open>Lines 439-443; \<open>clock i\<close> is the date at the \<open>i\<close>-th call of \<^verbatim>\<open>datetime.now()\<close>.\<close>

fun sheets_loop ::
  "(nat \<Rightarrow> string) \<Rightarrow> nat \<Rightarrow> pdf_doc world \<Rightarrow> spec_product list \<Rightarrow> py_error + pdf_doc world" where
  "sheets_loop clock i w [] = Inr w"
| "sheets_loop clock i w (product # rest) =
     (let filename = slug product @ ''-spec.pdf'';
          filepath = path_join OUTPUT_DIR_pdfs filename
      in case create_spec_sheet (clock i) w product filepath of
           Inl e \<Rightarrow> Inl e
         | Inr w' \<Rightarrow>
             sheets_loop clock (Suc i)
               (print w' (''  '' @ CREATED_MARK @ '' Created: '' @ filename)) rest)"

definition run_pdfs ::
  "(nat \<Rightarrow> string) \<Rightarrow> spec_product list \<Rightarrow> pdf_doc world \<Rightarrow> py_error + pdf_doc world" where
  "run_pdfs clock products w =
     (let w = makedirs w OUTPUT_DIR_pdfs;
          w = print w ''Generating PDF specification sheets...''
      in ebind (sheets_loop clock 0 w products) (\<lambda>w.
         Inr (print w ([CHR 0x0A] @ DONE_MARK @ '' Generated '' @ str_nat (length products)
                @ '' PDF specification sheets in '' @ OUTPUT_DIR_pdfs))))"

definition main_pdfs :: "(nat \<Rightarrow> string) \<Rightarrow> pdf_doc world \<Rightarrow> py_error + pdf_doc world" where
  "main_pdfs clock w = run_pdfs clock PRODUCTS_pdfs w"

section \<open>Closed forms\<close>

text \<open>
  What the loops and the sequences of drawing calls amount to, written without the
  loop: the proofs below show that the code computes exactly these.
\<close>

text \<open>The interpolation parameter of a pixel, as a value.\<close>

definition gradient_t :: "string \<Rightarrow> int \<Rightarrow> int \<Rightarrow> int \<Rightarrow> int \<Rightarrow> pyfloat" where
  "gradient_t direction width height x y =
     (if direction = ''diagonal'' then rnd (of_int (x + y) / of_int (width + height))
      else if direction = ''vertical'' then rnd (of_int y / of_int height)
      else rnd (of_int x / of_int width))"

definition row_fill :: "string \<Rightarrow> int \<Rightarrow> int \<Rightarrow> rgb \<Rightarrow> rgb \<Rightarrow> int \<Rightarrow> image \<Rightarrow> int list \<Rightarrow> image" where
  "row_fill d w h c1 c2 y img xs =
     foldl (\<lambda>im x. draw_point im (x, y) (blend_rgb c1 c2 (gradient_t d w h x y))) img xs"

definition rows_fill :: "string \<Rightarrow> int \<Rightarrow> int \<Rightarrow> rgb \<Rightarrow> rgb \<Rightarrow> image \<Rightarrow> int list \<Rightarrow> image" where
  "rows_fill d w h c1 c2 img ys =
     foldl (\<lambda>im y. row_fill d w h c1 c2 y im (py_range w)) img ys"

definition dot_op :: "pil_env \<Rightarrow> int \<Rightarrow> int \<Rightarrow> int \<Rightarrow> rgb \<Rightarrow> rgb \<Rightarrow> nat \<Rightarrow> draw_op" where
  "dot_op env center_x center_y radius lighter darker i =
     (case powder_sample env (fmul (int_to_float radius) (float_lit (8 / 10))) i of
        (dx, dy, sz, coin) \<Rightarrow>
          let x = fadd (int_to_float center_x) dx;
              y = fadd (int_to_float center_y) dy
          in Ellipse (fsub x (int_to_float sz), fsub y (int_to_float sz),
                      fadd x (int_to_float sz), fadd y (int_to_float sz))
               (if 1 / 2 < coin then lighter else darker))"

definition powder_ops :: "pil_env \<Rightarrow> int \<Rightarrow> int \<Rightarrow> int \<Rightarrow> rgb \<Rightarrow> draw_op list" where
  "powder_ops env center_x center_y radius c =
     Ellipse (of_int (center_x - radius), of_int (center_y - radius),
              of_int (center_x + radius), of_int (center_y + radius)) c
     # map (dot_op env center_x center_y radius (map_rgb (\<lambda>c. min 255 (c + 30)) c)
              (map_rgb (\<lambda>c. max 0 (c - 20)) c)) [0..<50]"

definition leaf_ops :: "pyfloat \<Rightarrow> pyfloat \<Rightarrow> int \<Rightarrow> rgb \<Rightarrow> draw_op list" where
  "leaf_ops x y sz c =
     [Ellipse (x, y, fadd x (int_to_float (sz * 2)), fadd y (int_to_float sz))
        (map_rgb (\<lambda>c. max 0 (c - 30)) c),
      Line ((fadd x (int_to_float sz), fadd y (int_to_float (sz div 2))),
            (fadd x (int_to_float sz), fadd (fadd y (int_to_float sz)) (int_to_float 10)))
        (map_rgb (\<lambda>c. max 0 (c - 30)) c) 2]"

definition fonts_of :: "pil_env \<Rightarrow> font \<times> font" where
  "fonts_of env =
     (case truetype env FONT_BOLD 36 of
        Inl e \<Rightarrow> (load_default, load_default)
      | Inr font_large \<Rightarrow>
          (case truetype env FONT_REGULAR 24 of
             Inl e \<Rightarrow> (load_default, load_default)
           | Inr font_small \<Rightarrow> (font_large, font_small)))"

definition text_width_of :: "pil_env \<Rightarrow> string \<Rightarrow> font \<Rightarrow> int" where
  "text_width_of env s f = fst (snd (snd (textbbox env (0, 0) s f))) - fst (textbbox env (0, 0) s f)"

definition text_ops :: "pil_env \<Rightarrow> product \<Rightarrow> int \<times> int \<Rightarrow> draw_op list" where
  "text_ops env product sz =
     (case sz of (width, height) \<Rightarrow> case fonts_of env of (font_large, font_small) \<Rightarrow>
        [Text ((width - text_width_of env (name product) font_large) div 2 + 2, height - 150 + 2)
           (name product) font_large [0, 0, 0, 128],
         Text ((width - text_width_of env (name product) font_large) div 2, height - 150)
           (name product) font_large [255, 255, 255],
         Text ((width - text_width_of env (''Grade: '' @ grade product) font_small) div 2,
               height - 150 + 50)
           (''Grade: '' @ grade product) font_small [255, 255, 255, 200]])"

definition composed_ops :: "pil_env \<Rightarrow> product \<Rightarrow> int \<times> int \<Rightarrow> palette \<Rightarrow> draw_op list" where
  "composed_ops env product sz colors =
     (case sz of (width, height) \<Rightarrow>
        powder_ops env (width div 2) (height div 2 - 50) (min width height div 4) (accent colors)
        @ leaf_ops (fmul (int_to_float width) (float_lit (1 / 10)))
            (fmul (int_to_float height) (float_lit (1 / 10))) 30 (primary colors)
        @ leaf_ops (fmul (int_to_float width) (float_lit (8 / 10)))
            (fmul (int_to_float height) (float_lit (15 / 100))) 25 (primary colors)
        @ leaf_ops (fmul (int_to_float width) (float_lit (15 / 100)))
            (fmul (int_to_float height) (float_lit (8 / 10))) 20 (primary colors)
        @ leaf_ops (fmul (int_to_float width) (float_lit (75 / 100)))
            (fmul (int_to_float height) (float_lit (85 / 100))) 28 (primary colors)
        @ text_ops env product sz
        @ [Rectangle (0, 0, width - 1, height - 1) (accent colors) 3])"

definition PREMIUM :: palette where
  "PREMIUM = \<lparr>primary = (85, 150, 80), secondary = (160, 200, 120), accent = (50, 100, 45)\<rparr>"

definition saves :: "saved_image world \<Rightarrow> (string \<times> string \<times> int \<times> int \<times> int) list" where
  "saves w = map (\<lambda>(path, f). (path, file_format f, file_quality f,
                     img_width (file_image f), img_height (file_image f))) (writes w)"

definition product_saves :: "product \<Rightarrow> (string \<times> string \<times> int \<times> int \<times> int) list" where
  "product_saves p =
     [(path_join OUTPUT_DIR_images (slug p @ ''.jpg''), ''JPEG'', 90, 800, 800),
      (path_join OUTPUT_DIR_images (slug p @ ''-thumb.jpg''), ''JPEG'', 85, 400, 400)]"

definition placeholder_save :: "string \<times> string \<times> int \<times> int \<times> int" where
  "placeholder_save = (path_join OUTPUT_DIR_images ''placeholder.jpg'', ''JPEG'', 85, 800, 800)"

text \<open>An environment without font files, and a record whose grade has no palette.\<close>

definition example_env :: pil_env where
  "example_env =
     \<lparr>truetype = (\<lambda>path sz. Inl OSError),
      textbbox = (\<lambda>xy s f. (0, 0, 6 * int (length s), 11)),
      powder_sample = (\<lambda>d i. (0, 0, 2, 0)),
      resample = (\<lambda>img sz xy. (0, 0, 0))\<rparr>"

definition unknown_grade_product :: product where
  "unknown_grade_product = \<lparr>slug = ''sample-matcha'', name = ''Sample Matcha'', grade = ''Matcha''\<rparr>"

text \<open>Reading the trace of drawing calls.\<close>

definition ellipse_centre :: "draw_op \<Rightarrow> rat \<times> rat" where
  "ellipse_centre op =
     (case op of Ellipse (x0, y0, x1, y1) c \<Rightarrow> ((x0 + x1) / 2, (y0 + y1) / 2) | _ \<Rightarrow> (0, 0))"

definition is_text :: "draw_op \<Rightarrow> bool" where
  "is_text op = (case op of Text xy s f fill \<Rightarrow> True | _ \<Rightarrow> False)"

definition font_of :: "draw_op \<Rightarrow> font" where
  "font_of op = (case op of Text xy s f fill \<Rightarrow> f | _ \<Rightarrow> DefaultFont)"

text \<open>The paths a run of each script writes, as functions of the slugs alone.\<close>

definition image_paths :: "string list \<Rightarrow> string list" where
  "image_paths slugs =
     concat (map (\<lambda>s. [path_join OUTPUT_DIR_images (s @ ''.jpg''),
                        path_join OUTPUT_DIR_images (s @ ''-thumb.jpg'')]) slugs)
     @ [path_join OUTPUT_DIR_images ''placeholder.jpg'']"

definition pdf_paths :: "string list \<Rightarrow> string list" where
  "pdf_paths slugs = map (\<lambda>s. path_join OUTPUT_DIR_pdfs (s @ ''-spec.pdf'')) slugs"

text \<open>A machine with no files yet.\<close>

definition empty_world :: "'f world" where
  "empty_world = \<lparr>dirs = {}, writes = [], stdout = []\<rparr>"

text \<open>\<open>adjacent xs ys\<close>: the blocks \<open>xs\<close> occur in \<open>ys\<close>, next to each other and in this order.\<close>

definition adjacent :: "'a list \<Rightarrow> 'a list \<Rightarrow> bool" where
  "adjacent xs ys = (\<exists>pre post. ys = pre @ xs @ post)"

text \<open>The largest difference between two colours over the three channels.\<close>

definition channel_gap :: "rgb \<Rightarrow> rgb \<Rightarrow> int" where
  "channel_gap c d =
     (case c of (r1, g1, b1) \<Rightarrow> case d of (r2, g2, b2) \<Rightarrow>
        max \<bar>r1 - r2\<bar> (max \<bar>g1 - g2\<bar> \<bar>b1 - b2\<bar>))"

section \<open>The gradient\<close>

lemma gradient_ratio_ok:
  "0 < w \<Longrightarrow> 0 < h \<Longrightarrow> gradient_ratio d w h x y = Inr (gradient_t d w h x y)"
  by (simp add: gradient_ratio_def gradient_t_def py_truediv_def)

lemma gradient_row_ok:
  "0 < w \<Longrightarrow> 0 < h \<Longrightarrow>
   gradient_row d w h c1 c2 y img xs = Inr (row_fill d w h c1 c2 y img xs)"
  by (induction xs arbitrary: img) (simp_all add: row_fill_def gradient_ratio_ok)

lemma draw_point_dims [simp]:
  "img_width (draw_point img p c) = img_width img"
  "img_height (draw_point img p c) = img_height img"
  "img_ops (draw_point img p c) = img_ops img"
  by (simp_all add: draw_point_def split: prod.splits)

lemma row_fill_dims [simp]:
  "img_width (row_fill d w h c1 c2 y img xs) = img_width img"
  "img_height (row_fill d w h c1 c2 y img xs) = img_height img"
  "img_ops (row_fill d w h c1 c2 y img xs) = img_ops img"
  by (induction xs arbitrary: img) (simp_all add: row_fill_def)

lemma draw_point_px:
  "img_px (draw_point img (x, y) c) q =
     (if q = (x, y) \<and> 0 \<le> x \<and> x < img_width img \<and> 0 \<le> y \<and> y < img_height img
      then clip_rgb c else img_px img q)"
  by (simp add: draw_point_def)

lemma row_fill_px:
  "img_px (row_fill d w h c1 c2 y img xs) (x', y') =
     (if y' = y \<and> x' \<in> set xs \<and> 0 \<le> x' \<and> x' < img_width img \<and> 0 \<le> y \<and> y < img_height img
      then clip_rgb (blend_rgb c1 c2 (gradient_t d w h x' y))
      else img_px img (x', y'))"
proof (induction xs arbitrary: img)
  case Nil
  show ?case by (simp add: row_fill_def)
next
  case (Cons x xs)
  have step: "row_fill d w h c1 c2 y img (x # xs) =
      row_fill d w h c1 c2 y (draw_point img (x, y) (blend_rgb c1 c2 (gradient_t d w h x y))) xs"
    by (simp add: row_fill_def)
  show ?case
    unfolding step Cons.IH by (auto simp: draw_point_px)
qed

lemma gradient_rows_ok:
  "0 < w \<Longrightarrow> 0 < h \<Longrightarrow>
   gradient_rows d w h c1 c2 img ys = Inr (rows_fill d w h c1 c2 img ys)"
  by (induction ys arbitrary: img) (simp_all add: rows_fill_def gradient_row_ok)

lemma gradient_rows_empty:
  "gradient_rows d w h c1 c2 img [] = Inr img"
  by simp

lemma rows_fill_dims [simp]:
  "img_width (rows_fill d w h c1 c2 img ys) = img_width img"
  "img_height (rows_fill d w h c1 c2 img ys) = img_height img"
  "img_ops (rows_fill d w h c1 c2 img ys) = img_ops img"
  by (induction ys arbitrary: img) (simp_all add: rows_fill_def)

lemma rows_fill_px:
  "img_px (rows_fill d w h c1 c2 img ys) (x', y') =
     (if y' \<in> set ys \<and> x' \<in> set (py_range w) \<and> 0 \<le> x' \<and> x' < img_width img
          \<and> 0 \<le> y' \<and> y' < img_height img
      then clip_rgb (blend_rgb c1 c2 (gradient_t d w h x' y'))
      else img_px img (x', y'))"
proof (induction ys arbitrary: img)
  case Nil
  show ?case by (simp add: rows_fill_def)
next
  case (Cons y ys)
  have step: "rows_fill d w h c1 c2 img (y # ys) =
      rows_fill d w h c1 c2 (row_fill d w h c1 c2 y img (py_range w)) ys"
    by (simp add: rows_fill_def)
  show ?case
    unfolding step Cons.IH by (auto simp: row_fill_px)
qed

lemma set_py_range: "set (py_range n) = {0..n - 1}"
  by (simp add: py_range_def)

lemma create_gradient_pixels_clip:
  assumes "0 < w" "0 < h"
  shows "\<exists>img. create_gradient w h c1 c2 d = Inr img \<and> img_width img = w \<and> img_height img = h
           \<and> img_ops img = []
           \<and> (\<forall>x y. 0 \<le> x \<and> x < w \<and> 0 \<le> y \<and> y < h \<longrightarrow>
                  img_px img (x, y) = clip_rgb (blend_rgb c1 c2 (gradient_t d w h x y)))"
  using assms
  by (simp add: create_gradient_def ebind_def Image_new_def gradient_rows_ok rows_fill_px
      set_py_range)

lemma create_gradient_total:
  assumes "0 \<le> w" "0 \<le> h"
  shows "\<exists>img. create_gradient w h c1 c2 d = Inr img \<and> img_width img = w \<and> img_height img = h
           \<and> img_ops img = []"
proof (cases "0 < w \<and> 0 < h")
  case True
  then show ?thesis using create_gradient_pixels_clip [of w h c1 c2 d] by blast
next
  case False
  show ?thesis
  proof (cases "h = 0")
    case True
    then show ?thesis using assms
      by (simp add: create_gradient_def ebind_def Image_new_def py_range_def)
  next
    case h: False
    with False assms have w0: "w = 0" by simp
    have row: "gradient_row d 0 h c1 c2 y img (py_range 0) = Inr img" for y img
      by (simp add: py_range_def)
    have rows: "gradient_rows d 0 h c1 c2 img ys = Inr img" for img ys
      by (induction ys arbitrary: img) (simp_all add: row)
    show ?thesis using assms w0
      by (simp add: create_gradient_def ebind_def Image_new_def rows)
  qed
qed


section \<open>The product image composer\<close>

lemma draw_op_add_simps [simp]:
  "img_width (draw_op_add img op) = img_width img"
  "img_height (draw_op_add img op) = img_height img"
  "img_px (draw_op_add img op) = img_px img"
  "img_ops (draw_op_add img op) = img_ops img @ [op]"
  by (simp_all add: draw_op_add_def)

lemma powder_dot_eq:
  "powder_dot env cx cy r l d img i = draw_op_add img (dot_op env cx cy r l d i)"
  by (simp add: powder_dot_def dot_op_def Let_def split: prod.splits)

lemma powder_dots_fold:
  "img_width (foldl (powder_dot env cx cy r l d) img ns) = img_width img"
  "img_height (foldl (powder_dot env cx cy r l d) img ns) = img_height img"
  "img_px (foldl (powder_dot env cx cy r l d) img ns) = img_px img"
  "img_ops (foldl (powder_dot env cx cy r l d) img ns) = img_ops img @ map (dot_op env cx cy r l d) ns"
  by (induction ns arbitrary: img) (simp_all add: powder_dot_eq)

lemma draw_matcha_powder_circle_simps [simp]:
  "img_width (draw_matcha_powder_circle env img cx cy r c) = img_width img"
  "img_height (draw_matcha_powder_circle env img cx cy r c) = img_height img"
  "img_px (draw_matcha_powder_circle env img cx cy r c) = img_px img"
  "img_ops (draw_matcha_powder_circle env img cx cy r c) = img_ops img @ powder_ops env cx cy r c"
  by (simp_all add: draw_matcha_powder_circle_def Let_def powder_dots_fold powder_ops_def)

lemma draw_tea_leaves_simps [simp]:
  "img_width (draw_tea_leaves img x y sz c) = img_width img"
  "img_height (draw_tea_leaves img x y sz c) = img_height img"
  "img_px (draw_tea_leaves img x y sz c) = img_px img"
  "img_ops (draw_tea_leaves img x y sz c) = img_ops img @ leaf_ops x y sz c"
  by (simp_all add: draw_tea_leaves_def Let_def leaf_ops_def)

lemma load_fonts_eq: "load_fonts env = Inr (fonts_of env)"
  by (simp add: load_fonts_def fonts_of_def try_except_def ebind_def split: sum.splits)

lemma compose_product_image_ok:
  assumes "1 \<le> w" "1 \<le> h"
  shows "\<exists>img. compose_product_image env p (w, h) colors = Inr img
           \<and> img_width img = w \<and> img_height img = h
           \<and> img_ops img = composed_ops env p (w, h) colors
           \<and> (\<forall>x y. 0 \<le> x \<and> x < w \<and> 0 \<le> y \<and> y < h \<longrightarrow>
                 img_px img (x, y) =
                   clip_rgb (blend_rgb (secondary colors) (primary colors)
                               (gradient_t ''diagonal'' w h x y)))"
proof -
  obtain g where g: "create_gradient w h (secondary colors) (primary colors) ''diagonal'' = Inr g"
    "img_width g = w" "img_height g = h" "img_ops g = []"
  proof -
    from assms have "0 \<le> w" "0 \<le> h" by simp_all
    from create_gradient_total [OF this, of "secondary colors" "primary colors" "''diagonal''"]
    show ?thesis using that by blast
  qed
  have px: "img_px g (x, y) =
      clip_rgb (blend_rgb (secondary colors) (primary colors) (gradient_t ''diagonal'' w h x y))"
    if "0 \<le> x" "x < w" "0 \<le> y" "y < h" for x y
  proof -
    from that have "0 < w" "0 < h" by auto
    from create_gradient_pixels_clip [OF this, of "secondary colors" "primary colors" "''diagonal''"]
      g(1) that
    show ?thesis by auto
  qed
  show ?thesis
    using assms
    by (simp add: compose_product_image_def g ebind_def load_fonts_eq Let_def composed_ops_def
        text_ops_def text_width_of_def px draw_rectangle_def split: prod.splits)
qed

text \<open>With an empty side the border box is \<open>(0, 0, - 1, _)\<close> or \<open>(0, 0, _, - 1)\<close> and is refused.\<close>

lemma compose_product_image_empty_side:
  assumes "0 \<le> w" "0 \<le> h" "w = 0 \<or> h = 0"
  shows "compose_product_image env p (w, h) colors = Inl ValueError"
proof -
  obtain g where g: "create_gradient w h (secondary colors) (primary colors) ''diagonal'' = Inr g"
    using create_gradient_total [OF assms(1,2)] by blast
  show ?thesis
    using assms(3)
    by (auto simp: compose_product_image_def g ebind_def load_fonts_eq Let_def draw_rectangle_def
        split: prod.splits)
qed


section \<open>The image batch driver\<close>

lemma premium_lookup: "dict_getitem GRADE_COLORS ''Premium'' = Inr PREMIUM"
  by (simp add: dict_getitem_def GRADE_COLORS_def PREMIUM_def)

lemma grade_colors_eq: "grade_colors g = Inr (dict_get GRADE_COLORS g PREMIUM)"
  by (simp add: grade_colors_def premium_lookup ebind_def)

lemma grade_colors_unknown:
  "g \<notin> {''Ceremonial'', ''Premium'', ''Culinary'', ''Competition''} \<Longrightarrow> grade_colors g = Inr PREMIUM"
  by (simp add: grade_colors_eq dict_get_def GRADE_COLORS_def)

lemma generate_product_image_eq:
  "generate_product_image env p sz = compose_product_image env p sz (dict_get GRADE_COLORS (grade p) PREMIUM)"
  by (simp add: generate_product_image_def grade_colors_eq ebind_def)

lemma thumbnail_800: "thumbnail_size (800, 800) (400, 400) = (400, 400)"
  by (simp add: thumbnail_size_def)

lemma world_simps [simp]:
  "writes (print w l) = writes w" "dirs (print w l) = dirs w" "stdout (print w l) = stdout w @ [l]"
  "writes (makedirs w d) = writes w" "dirs (makedirs w d) = insert d (dirs w)"
  "stdout (makedirs w d) = stdout w"
  by (simp_all add: print_def makedirs_def)

lemma saves_simps [simp]:
  "saves (print w l) = saves w" "saves (makedirs w d) = saves w"
  "saves (w\<lparr>writes := ws\<rparr>)
     = map (\<lambda>(path, f). (path, file_format f, file_quality f,
                           img_width (file_image f), img_height (file_image f))) ws"
  by (simp_all add: saves_def)

lemma parent_dir_join:
  assumes "CHR ''/'' \<notin> set n"
  shows "parent_dir (d @ ''/'' @ n) = d"
proof -
  have "dropWhile (\<lambda>c. c \<noteq> CHR ''/'') (rev n @ CHR ''/'' # rev d) = CHR ''/'' # rev d"
    using assms by (subst dropWhile_append2) auto
  then show ?thesis by (simp add: parent_dir_def)
qed

lemma path_join_plain:
  assumes "CHR ''/'' \<notin> set n" "n \<noteq> []" "d \<noteq> []" "last d \<noteq> CHR ''/''"
  shows "path_join d n = d @ ''/'' @ n"
proof -
  from assms(1,2) have "hd n \<noteq> CHR ''/''" by (cases n) auto
  then show ?thesis using assms(2,3,4) by (simp add: path_join_def)
qed

lemma images_dir_join:
  assumes "CHR ''/'' \<notin> set n" "n \<noteq> []"
  shows "path_join OUTPUT_DIR_images n = OUTPUT_DIR_images @ ''/'' @ n"
    and "parent_dir (path_join OUTPUT_DIR_images n) = OUTPUT_DIR_images"
proof -
  show j: "path_join OUTPUT_DIR_images n = OUTPUT_DIR_images @ ''/'' @ n"
    using assms by (intro path_join_plain) (simp_all add: OUTPUT_DIR_images_def)
  show "parent_dir (path_join OUTPUT_DIR_images n) = OUTPUT_DIR_images"
    unfolding j using assms(1) by (rule parent_dir_join)
qed

lemma Image_save_ok:
  "parent_dir path \<in> dirs w \<Longrightarrow>
   Image_save w img path fmt q =
     Inr (w\<lparr>writes := writes w
            @ [(path, \<lparr>file_image = img, file_format = fmt, file_quality = q\<rparr>)]\<rparr>)"
  by (simp add: Image_save_def write_file_def)

lemma save_product_images_ok:
  assumes "CHR ''/'' \<notin> set (slug p)" "OUTPUT_DIR_images \<in> dirs w"
  shows "\<exists>w'. save_product_images env w p = Inr w' \<and> saves w' = saves w @ product_saves p
        \<and> dirs w' = dirs w"
proof -
  obtain img where img: "generate_product_image env p (800, 800) = Inr img"
    "img_width img = 800" "img_height img = 800"
    unfolding generate_product_image_eq
    using compose_product_image_ok [of 800 800 env p "dict_get GRADE_COLORS (grade p) PREMIUM"]
    by auto
  have d1: "parent_dir (path_join OUTPUT_DIR_images (slug p @ ''.jpg'')) = OUTPUT_DIR_images"
    using assms(1) by (intro images_dir_join) simp_all
  have d2: "parent_dir (path_join OUTPUT_DIR_images (slug p @ ''-thumb.jpg'')) = OUTPUT_DIR_images"
    using assms(1) by (intro images_dir_join) simp_all
  show ?thesis
    using assms(2)
    by (simp add: save_product_images_def img ebind_def Let_def product_saves_def
        Image_thumbnail_def thumbnail_800 Image_save_ok d1 d2 saves_def)
qed

lemma products_loop_ok:
  assumes "\<forall>p \<in> set ps. CHR ''/'' \<notin> set (slug p)" "OUTPUT_DIR_images \<in> dirs w"
  shows "\<exists>w'. products_loop env w ps = Inr w' \<and> saves w' = saves w @ concat (map product_saves ps)
        \<and> dirs w' = dirs w"
  using assms
proof (induction ps arbitrary: w)
  case Nil
  show ?case by simp
next
  case (Cons p ps)
  from Cons.prems have p: "CHR ''/'' \<notin> set (slug p)" by simp
  obtain w1 where w1: "save_product_images env w p = Inr w1" "saves w1 = saves w @ product_saves p"
    "dirs w1 = dirs w"
    using save_product_images_ok [OF p Cons.prems(2)] by blast
  from Cons.IH [of w1] Cons.prems w1 show ?case by auto
qed

lemma save_placeholder_ok:
  assumes "OUTPUT_DIR_images \<in> dirs w"
  shows "\<exists>w'. save_placeholder env w = Inr w' \<and> saves w' = saves w @ [placeholder_save]
        \<and> dirs w' = dirs w"
proof -
  obtain g where g: "create_gradient 800 800 (200, 200, 200) (150, 150, 150) ''diagonal'' = Inr g"
    "img_width g = 800" "img_height g = 800"
    using create_gradient_total [of 800 800] by force
  have d: "parent_dir (path_join OUTPUT_DIR_images ''placeholder.jpg'') = OUTPUT_DIR_images"
    by (intro images_dir_join) simp_all
  show ?thesis
    using assms
    by (simp add: save_placeholder_def g ebind_def try_except_def Let_def placeholder_save_def
        Image_save_ok d saves_def split: sum.splits)
qed

lemma run_images_ok:
  assumes "\<forall>p \<in> set ps. CHR ''/'' \<notin> set (slug p)"
  shows "\<exists>w'. run_images env ps w = Inr w'
        \<and> saves w' = saves w @ concat (map product_saves ps) @ [placeholder_save]
        \<and> dirs w' = insert OUTPUT_DIR_images (dirs w)"
proof -
  let ?w0 = "print (makedirs w OUTPUT_DIR_images) ''Generating product images...''"
  have d0: "OUTPUT_DIR_images \<in> dirs ?w0" by simp
  obtain w1 where w1: "products_loop env ?w0 ps = Inr w1"
    "saves w1 = saves ?w0 @ concat (map product_saves ps)" "dirs w1 = dirs ?w0"
    using products_loop_ok [OF assms d0] by blast
  have d1: "OUTPUT_DIR_images \<in> dirs w1" by (simp add: w1(3))
  obtain w2 where w2: "save_placeholder env w1 = Inr w2" "saves w2 = saves w1 @ [placeholder_save]"
    "dirs w2 = dirs w1"
    using save_placeholder_ok [OF d1] by blast
  show ?thesis
    by (simp add: run_images_def Let_def w1 w2 ebind_def)
qed

lemma dom_files: "dom (files w) = fst ` set (writes w)"
  by (simp add: files_def dom_map_of_conv_image_fst)

lemma dom_files_saves: "dom (files w) = set (map fst (saves w))"
  by (force simp: dom_files saves_def)


lemma is_text_simps [simp]:
  "is_text (Ellipse b c) = False" "is_text (Line l c n) = False"
  "is_text (Rectangle r c n) = False" "is_text (Text xy s f fill) = True"
  by (simp_all add: is_text_def)

lemma dot_op_not_text [simp]: "\<not> is_text (dot_op env cx cy r l d i)"
  by (simp add: dot_op_def is_text_def Let_def split: prod.splits)

lemma filter_text_powder [simp]: "filter is_text (powder_ops env cx cy r c) = []"
  by (simp add: powder_ops_def filter_empty_conv)

lemma filter_text_leaf [simp]: "filter is_text (leaf_ops x y sz c) = []"
  by (simp add: leaf_ops_def)

lemma filter_text_composed:
  "filter is_text (composed_ops env p (w, h) colors) = text_ops env p (w, h)"
  by (simp add: composed_ops_def text_ops_def split: prod.splits)

lemma fonts_of_fallback:
  "(\<exists>e. truetype env FONT_BOLD 36 = Inl e) \<or> (\<exists>e. truetype env FONT_REGULAR 24 = Inl e) \<Longrightarrow>
   fonts_of env = (load_default, load_default)"
  by (auto simp: fonts_of_def split: sum.splits)

subsection \<open>Palette fallback\<close>

text \<open>
  Claim C10.  For a record whose grade is not one of the four grades of the palette table,
  the palette the composer selects is the Premium palette: primary (85, 150, 80),
  secondary (160, 200, 120), accent (50, 100, 45).  It is the selection made for the
  grade Premium, and the picture is composed with it.
\<close>

theorem unknown_grade_gets_premium_palette:
  assumes "grade p \<notin> {''Ceremonial'', ''Premium'', ''Culinary'', ''Competition''}"
  shows "grade_colors (grade p) =
           Inr \<lparr>primary = (85, 150, 80), secondary = (160, 200, 120), accent = (50, 100, 45)\<rparr>
         \<and> grade_colors (grade p) = grade_colors ''Premium''
         \<and> generate_product_image env p sz =
             compose_product_image env p sz
               \<lparr>primary = (85, 150, 80), secondary = (160, 200, 120), accent = (50, 100, 45)\<rparr>"
  using assms
  by (simp add: generate_product_image_eq grade_colors_eq dict_get_def GRADE_COLORS_def PREMIUM_def)

theorem unknown_grade_gets_premium_palette_witness:
  "grade unknown_grade_product \<notin> {''Ceremonial'', ''Premium'', ''Culinary'', ''Competition''}
   \<and> grade_colors (grade unknown_grade_product) =
           Inr \<lparr>primary = (85, 150, 80), secondary = (160, 200, 120), accent = (50, 100, 45)\<rparr>
   \<and> grade_colors (grade unknown_grade_product) = grade_colors ''Premium''
   \<and> generate_product_image example_env unknown_grade_product (800, 800) =
       compose_product_image example_env unknown_grade_product (800, 800)
         \<lparr>primary = (85, 150, 80), secondary = (160, 200, 120), accent = (50, 100, 45)\<rparr>"
proof -
  have a: "grade unknown_grade_product \<notin> {''Ceremonial'', ''Premium'', ''Culinary'', ''Competition''}"
    by (simp add: unknown_grade_product_def)
  from unknown_grade_gets_premium_palette [OF a, of example_env "(800, 800)"] a
  show ?thesis by blast
qed

text \<open>
  Claim C3.  For a grade that is not a key of the palette table, the composer takes the
  default palette, the entry that the table holds for Premium, and, for a size of at
  least 1 x 1, returns a picture of that size drawn with it: no exception is raised.
\<close>

theorem unknown_grade_renders_with_default:
  assumes "grade p \<notin> fst ` set GRADE_COLORS" "1 \<le> w" "1 \<le> h"
  shows "\<exists>dflt img. dict_getitem GRADE_COLORS ''Premium'' = Inr dflt
           \<and> grade_colors (grade p) = Inr dflt
           \<and> generate_product_image env p (w, h) = Inr img
           \<and> img_width img = w \<and> img_height img = h
           \<and> img_ops img = composed_ops env p (w, h) dflt"
proof -
  from assms(1) have "map_of GRADE_COLORS (grade p) = None"
    by (simp add: map_of_eq_None_iff)
  then have d: "dict_get GRADE_COLORS (grade p) PREMIUM = PREMIUM"
    by (simp add: dict_get_def)
  from compose_product_image_ok [OF assms(2,3), of env p PREMIUM]
  show ?thesis
    by (auto simp: generate_product_image_eq grade_colors_eq d premium_lookup)
qed

theorem unknown_grade_renders_with_default_witness:
  "grade unknown_grade_product \<notin> fst ` set GRADE_COLORS
   \<and> (1::int) \<le> 800
   \<and> (\<exists>dflt img. dict_getitem GRADE_COLORS ''Premium'' = Inr dflt
        \<and> grade_colors (grade unknown_grade_product) = Inr dflt
        \<and> generate_product_image example_env unknown_grade_product (800, 800) = Inr img
        \<and> img_width img = 800 \<and> img_height img = 800
        \<and> img_ops img = composed_ops example_env unknown_grade_product (800, 800) dflt)"
proof -
  have a: "grade unknown_grade_product \<notin> fst ` set GRADE_COLORS"
    by (simp add: GRADE_COLORS_def unknown_grade_product_def)
  have b: "(1::int) \<le> 800" by simp
  from unknown_grade_renders_with_default [OF a b b, of example_env] a b
  show ?thesis by blast
qed

subsection \<open>Font fallback\<close>

text \<open>
  Claim C9.  When loading either font of the preferred pair raises, whatever the
  exception, both fonts become the built-in font, the composer still returns a picture
  (for a size of at least 1 x 1), and each of its three text calls uses the built-in
  font.
\<close>

theorem font_failure_falls_back:
  assumes "(\<exists>e. truetype env FONT_BOLD 36 = Inl e) \<or> (\<exists>e. truetype env FONT_REGULAR 24 = Inl e)"
    and "1 \<le> w" "1 \<le> h"
  shows "load_fonts env = Inr (load_default, load_default)
         \<and> (\<exists>img. generate_product_image env p (w, h) = Inr img
               \<and> length (filter is_text (img_ops img)) = 3
               \<and> (\<forall>op \<in> set (img_ops img). is_text op \<longrightarrow> font_of op = load_default))"
proof -
  have f: "fonts_of env = (load_default, load_default)"
    using assms(1) by (rule fonts_of_fallback)
  obtain img where img: "generate_product_image env p (w, h) = Inr img"
    "img_ops img = composed_ops env p (w, h) (dict_get GRADE_COLORS (grade p) PREMIUM)"
    unfolding generate_product_image_eq
    using compose_product_image_ok [OF assms(2,3), of env p "dict_get GRADE_COLORS (grade p) PREMIUM"]
    by auto
  have t: "filter is_text (img_ops img) = text_ops env p (w, h)"
    by (simp add: img(2) filter_text_composed)
  have "\<forall>op \<in> set (filter is_text (img_ops img)). font_of op = load_default"
    unfolding t by (simp add: text_ops_def f font_of_def)
  then have "\<forall>op \<in> set (img_ops img). is_text op \<longrightarrow> font_of op = load_default"
    by simp
  moreover have "length (filter is_text (img_ops img)) = 3"
    unfolding t by (simp add: text_ops_def f)
  ultimately show ?thesis
    using img(1) f by (simp add: load_fonts_eq)
qed

theorem font_failure_falls_back_witness:
  "((\<exists>e. truetype example_env FONT_BOLD 36 = Inl e) \<or> (\<exists>e. truetype example_env FONT_REGULAR 24 = Inl e))
   \<and> load_fonts example_env = Inr (load_default, load_default)
   \<and> (\<exists>img. generate_product_image example_env (hd PRODUCTS_images) (800, 800) = Inr img
               \<and> length (filter is_text (img_ops img)) = 3
               \<and> (\<forall>op \<in> set (img_ops img). is_text op \<longrightarrow> font_of op = load_default))"
proof -
  have a: "(\<exists>e. truetype example_env FONT_BOLD 36 = Inl e) \<or> (\<exists>e. truetype example_env FONT_REGULAR 24 = Inl e)"
    by (simp add: example_env_def)
  have b: "(1::int) \<le> 800" by simp
  from font_failure_falls_back [OF a b b, of "hd PRODUCTS_images"] a show ?thesis by blast
qed

lemma image_paths_saves:
  "map fst (concat (map product_saves ps) @ [placeholder_save]) = image_paths (map slug ps)"
  by (induction ps) (simp_all add: image_paths_def product_saves_def placeholder_save_def)

lemma composed_ops_hd:
  "composed_ops env p (w, h) colors =
     Ellipse (of_int (w div 2 - min w h div 4), of_int (h div 2 - 50 - min w h div 4),
              of_int (w div 2 + min w h div 4), of_int (h div 2 - 50 + min w h div 4))
       (accent colors)
     # tl (composed_ops env p (w, h) colors)"
  by (simp add: composed_ops_def powder_ops_def)

lemma powder_circle_ops:
  assumes "1 \<le> w" "1 \<le> h"
  shows "\<exists>colors img rest. grade_colors (grade p) = Inr colors
           \<and> generate_product_image env p (w, h) = Inr img
           \<and> img_ops img =
               Ellipse (of_int (w div 2 - min w h div 4), of_int (h div 2 - 50 - min w h div 4),
                        of_int (w div 2 + min w h div 4), of_int (h div 2 - 50 + min w h div 4))
                 (accent colors) # rest
           \<and> ellipse_centre (hd (img_ops img)) = (of_int (w div 2), of_int (h div 2 - 50))"
proof -
  let ?c = "dict_get GRADE_COLORS (grade p) PREMIUM"
  obtain img where img: "generate_product_image env p (w, h) = Inr img"
    "img_ops img = composed_ops env p (w, h) ?c"
    unfolding generate_product_image_eq
    using compose_product_image_ok [OF assms, of env p ?c] by auto
  have c: "ellipse_centre (hd (img_ops img)) = (of_int (w div 2), of_int (h div 2 - 50))"
    unfolding img(2) by (subst composed_ops_hd) (simp add: ellipse_centre_def)
  show ?thesis
    using img(1) c composed_ops_hd [of env p w h ?c]
    by (auto simp: grade_colors_eq img(2))
qed

subsection \<open>The powder circle\<close>

text \<open>
  Claim C8, as amended.  For a size of at least 1 x 1 the composer returns a picture,
  and the first shape it draws is the powder circle: an ellipse filled with the accent
  colour of the grade's palette, of radius
  \<open>min width height div 4\<close>, whose centre is \<open>(width div 2, height div 2 - 50)\<close>:
  centred horizontally, and 50 pixels above the middle of the picture vertically.
\<close>

theorem powder_circle_geometry:
  assumes "1 \<le> w" "1 \<le> h"
  shows "\<exists>colors img rest. grade_colors (grade p) = Inr colors
           \<and> generate_product_image env p (w, h) = Inr img
           \<and> img_ops img =
               Ellipse (of_int (w div 2 - min w h div 4), of_int (h div 2 - 50 - min w h div 4),
                        of_int (w div 2 + min w h div 4), of_int (h div 2 - 50 + min w h div 4))
                 (accent colors) # rest
           \<and> ellipse_centre (hd (img_ops img)) = (of_int (w div 2), of_int (h div 2 - 50))"
  using assms by (rule powder_circle_ops)

theorem powder_circle_geometry_witness:
  "(1::int) \<le> 800
   \<and> (\<exists>colors img rest. grade_colors (grade (hd PRODUCTS_images)) = Inr colors
           \<and> generate_product_image example_env (hd PRODUCTS_images) (800, 800) = Inr img
           \<and> img_ops img = Ellipse (200, 150, 600, 550) (accent colors) # rest
           \<and> ellipse_centre (hd (img_ops img)) = (400, 350))"
  using powder_circle_geometry [of 800 800 "hd PRODUCTS_images" example_env]
  by simp

text \<open>
  The circle is not centred in the picture: for the first record of the catalogue at
  800 x 800 its centre is (400, 350), not (400, 400).
\<close>

theorem powder_circle_centred_counterexample:
  "ellipse_centre (hd (img_ops (projr (generate_product_image example_env (hd PRODUCTS_images)
      (800, 800))))) = (400, 350)
   \<and> (400, 350) \<noteq> (of_int 800 / 2 :: rat, of_int 800 / 2 :: rat)"
proof -
  obtain img where img: "generate_product_image example_env (hd PRODUCTS_images) (800, 800) = Inr img"
    "ellipse_centre (hd (img_ops img)) = (of_int (800 div 2), of_int (800 div 2 - 50))"
    using powder_circle_ops [of 800 800 "hd PRODUCTS_images" example_env] by auto
  show ?thesis by (simp add: img)
qed


lemma run_images_paths:
  assumes "\<forall>p \<in> set ps. CHR ''/'' \<notin> set (slug p)"
  shows "\<exists>w'. run_images env ps w = Inr w'
        \<and> map fst (saves w') = map fst (saves w) @ image_paths (map slug ps)"
  using run_images_ok [OF assms, of env w] by (auto simp: image_paths_saves [symmetric])

lemma dom_files_empty_start:
  "writes w = [] \<Longrightarrow> saves w' = saves w @ xs \<Longrightarrow> dom (files w') = set (map fst xs)"
  by (simp add: dom_files_saves saves_def)

lemma PRODUCTS_images_slugs: "\<forall>p \<in> set PRODUCTS_images. CHR ''/'' \<notin> set (slug p)"
  by (simp add: PRODUCTS_images_def)

lemma distinct_image_paths_PRODUCTS: "distinct (image_paths (map slug PRODUCTS_images))"
  by (simp add: image_paths_def PRODUCTS_images_def path_join_def OUTPUT_DIR_images_def)

lemma product_saves_plain:
  assumes "CHR ''/'' \<notin> set (slug p)"
  shows "product_saves p =
     [(OUTPUT_DIR_images @ ''/'' @ slug p @ ''.jpg'', ''JPEG'', 90, 800, 800),
      (OUTPUT_DIR_images @ ''/'' @ slug p @ ''-thumb.jpg'', ''JPEG'', 85, 400, 400)]"
proof -
  have "path_join OUTPUT_DIR_images (slug p @ ''.jpg'') = OUTPUT_DIR_images @ ''/'' @ slug p @ ''.jpg''"
    using assms by (intro images_dir_join) simp_all
  moreover have "path_join OUTPUT_DIR_images (slug p @ ''-thumb.jpg'')
      = OUTPUT_DIR_images @ ''/'' @ slug p @ ''-thumb.jpg''"
    using assms by (intro images_dir_join) simp_all
  ultimately show ?thesis by (simp add: product_saves_def)
qed

lemma placeholder_save_plain:
  "placeholder_save = (OUTPUT_DIR_images @ ''/placeholder.jpg'', ''JPEG'', 85, 800, 800)"
proof -
  have "path_join OUTPUT_DIR_images ''placeholder.jpg'' = OUTPUT_DIR_images @ ''/'' @ ''placeholder.jpg''"
    by (intro images_dir_join) simp_all
  then show ?thesis by (simp add: placeholder_save_def)
qed

subsection \<open>The files of a run\<close>

text \<open>
  Claim C2.  For a catalogue of N records, whose slugs are file name stems without a
  slash, a run of the image driver performs exactly 2N + 1 saves in the output directory,
  in this order: for each record the 800 x 800 picture at \<open>slug.jpg\<close> as JPEG of
  quality 90 and its 400 x 400 thumbnail at \<open>slug-thumb.jpg\<close> as JPEG of quality 85,
  and at the end \<open>placeholder.jpg\<close> as JPEG of quality 85.  When these paths are
  pairwise distinct and nothing was written before, the directory holds exactly these
  2N + 1 files.
\<close>

theorem image_driver_writes:
  assumes "\<forall>p \<in> set products. CHR ''/'' \<notin> set (slug p)"
  shows "\<exists>w'. run_images env products w = Inr w'
     \<and> saves w' = saves w
          @ concat (map (\<lambda>p. [(OUTPUT_DIR_images @ ''/'' @ slug p @ ''.jpg'', ''JPEG'', 90, 800, 800),
                               (OUTPUT_DIR_images @ ''/'' @ slug p @ ''-thumb.jpg'', ''JPEG'', 85, 400, 400)])
               products)
          @ [(OUTPUT_DIR_images @ ''/placeholder.jpg'', ''JPEG'', 85, 800, 800)]
     \<and> length (writes w') = length (writes w) + (2 * length products + 1)
     \<and> (writes w = [] \<and> distinct (image_paths (map slug products)) \<longrightarrow>
          dom (files w') = set (image_paths (map slug products))
          \<and> card (dom (files w')) = 2 * length products + 1)"
proof -
  obtain w' where w': "run_images env products w = Inr w'"
    "saves w' = saves w @ concat (map product_saves products) @ [placeholder_save]"
    using run_images_ok [OF assms] by blast
  have len: "length (concat (map product_saves ps)) = 2 * length ps" for ps
    by (induction ps) (simp_all add: product_saves_def)
  have "length (saves w') = length (saves w) + (2 * length products + 1)"
    by (simp add: w'(2) len)
  then have l: "length (writes w') = length (writes w) + (2 * length products + 1)"
    by (simp add: saves_def)
  have ps: "map product_saves products
     = map (\<lambda>p. [(OUTPUT_DIR_images @ ''/'' @ slug p @ ''.jpg'', ''JPEG'', 90, 800, 800),
                 (OUTPUT_DIR_images @ ''/'' @ slug p @ ''-thumb.jpg'', ''JPEG'', 85, 400, 400)])
         products"
    using assms by (intro map_cong refl product_saves_plain) simp
  have d: "dom (files w') = set (image_paths (map slug products))" if "writes w = []"
    using dom_files_empty_start [OF that w'(2)] by (simp only: image_paths_saves)
  have lp: "length (image_paths (map slug products)) = 2 * length products + 1"
    by (simp add: image_paths_saves [symmetric] len del: map_append)
  have c: "card (dom (files w')) = 2 * length products + 1"
    if "writes w = []" "distinct (image_paths (map slug products))"
    using d [OF that(1)] distinct_card [OF that(2)] lp by simp
  have s: "saves w' = saves w
          @ concat (map (\<lambda>p. [(OUTPUT_DIR_images @ ''/'' @ slug p @ ''.jpg'', ''JPEG'', 90, 800, 800),
                               (OUTPUT_DIR_images @ ''/'' @ slug p @ ''-thumb.jpg'', ''JPEG'', 85, 400, 400)])
               products)
          @ [(OUTPUT_DIR_images @ ''/placeholder.jpg'', ''JPEG'', 85, 800, 800)]"
    unfolding w'(2) ps placeholder_save_plain ..
  show ?thesis
    using w'(1) s l d c by blast
qed

theorem image_driver_writes_witness:
  "writes (empty_world :: saved_image world) = [] \<and> distinct (image_paths (map slug PRODUCTS_images))
   \<and> (\<exists>w'. main_images example_env empty_world = Inr w'
         \<and> length (writes w') = 17 \<and> card (dom (files w')) = 17)"
proof -
  have a: "writes (empty_world :: saved_image world) = []"
    by (simp add: empty_world_def)
  have n: "length PRODUCTS_images = 8"
    by (simp add: PRODUCTS_images_def)
  from image_driver_writes [OF PRODUCTS_images_slugs, of example_env empty_world] a
    distinct_image_paths_PRODUCTS n
  show ?thesis by (auto simp: main_images_def)
qed

lemma thumbnail_size_bounds:
  assumes "1 \<le> w" "1 \<le> h" "1 \<le> bw" "1 \<le> bh"
  shows "fst (thumbnail_size (w, h) (bw, bh)) \<le> bw"
    and "snd (thumbnail_size (w, h) (bw, bh)) \<le> bh"
    and "1 \<le> fst (thumbnail_size (w, h) (bw, bh))"
    and "1 \<le> snd (thumbnail_size (w, h) (bw, bh))"
    and "\<bar>fst (thumbnail_size (w, h) (bw, bh)) * h - snd (thumbnail_size (w, h) (bw, bh)) * w\<bar> \<le> max w h"
proof -
  have wide_le: "h * bw div w \<le> bh" if "h * bw \<le> w * bh"
  proof -
    have "h * bw div w \<le> w * bh div w" using that by (rule zdiv_mono1) (use assms in simp)
    then show ?thesis using assms by simp
  qed
  have tall_le: "w * bh div h \<le> bw" if "\<not> h * bw \<le> w * bh"
  proof -
    have "w * bh div h \<le> h * bw div h" by (rule zdiv_mono1) (use that assms in simp_all)
    then show ?thesis using assms by simp
  qed
  have err: "\<bar>b * n - max 1 (n * b div m) * m\<bar> \<le> m" if "1 \<le> m" "0 \<le> n" "0 \<le> b" for b n m :: int
  proof -
    have e: "n * b = m * (n * b div m) + n * b mod m" by simp
    have r: "0 \<le> n * b mod m" "n * b mod m < m" using that by simp_all
    have nn: "0 \<le> n * b div m" using that by (simp add: pos_imp_zdiv_nonneg_iff)
    show ?thesis
    proof (cases "1 \<le> n * b div m")
      case True
      then have "max 1 (n * b div m) = n * b div m" by simp
      moreover have "b * n - (n * b div m) * m = n * b mod m"
        using e by (simp add: algebra_simps)
      ultimately show ?thesis using r by simp
    next
      case False
      with nn have z: "n * b div m = 0" by simp
      then have "n * b = n * b mod m" using e by simp
      then have "0 \<le> b * n" "b * n < m" using r by (simp_all add: mult.commute)
      then show ?thesis using z by simp
    qed
  qed
  show "fst (thumbnail_size (w, h) (bw, bh)) \<le> bw"
    using assms tall_le by (auto simp: thumbnail_size_def)
  show "snd (thumbnail_size (w, h) (bw, bh)) \<le> bh"
    using assms wide_le by (auto simp: thumbnail_size_def)
  show "1 \<le> fst (thumbnail_size (w, h) (bw, bh))"
    using assms by (auto simp: thumbnail_size_def)
  show "1 \<le> snd (thumbnail_size (w, h) (bw, bh))"
    using assms by (auto simp: thumbnail_size_def)
  show "\<bar>fst (thumbnail_size (w, h) (bw, bh)) * h - snd (thumbnail_size (w, h) (bw, bh)) * w\<bar> \<le> max w h"
  proof (cases "w \<le> bw \<and> h \<le> bh")
    case True
    then show ?thesis using assms by (simp add: thumbnail_size_def mult.commute)
  next
    case False
    show ?thesis
    proof (cases "h * bw \<le> w * bh")
      case True
      have "\<bar>bw * h - max 1 (h * bw div w) * w\<bar> \<le> w"
        using err [of w h bw] assms by simp
      then have "\<bar>bw * h - max 1 (h * bw div w) * w\<bar> \<le> max w h" by linarith
      then show ?thesis using False True by (auto simp: thumbnail_size_def)
    next
      case F2: False
      have "\<bar>bh * w - max 1 (w * bh div h) * h\<bar> \<le> h"
        using err [of h w bh] assms by simp
      then have "\<bar>max 1 (w * bh div h) * h - bh * w\<bar> \<le> max w h" by linarith
      then show ?thesis using False F2 by (auto simp: thumbnail_size_def)
    qed
  qed
qed


lemma Image_thumbnail_dims:
  "(img_width (Image_thumbnail env img box), img_height (Image_thumbnail env img box))
     = thumbnail_size (img_width img, img_height img) box"
  by (simp add: Image_thumbnail_def Let_def)

subsection \<open>Thumbnails\<close>

text \<open>
  Claim C5.  For every full picture the composer generates, of any size at least
  1 x 1, the thumbnail derived from it has both sides between 1 and 400 and the same
  aspect ratio up to the rounding of one side: the cross product of the sizes is off by
  at most the longer side of the original.  For the 800 x 800 pictures of the driver it
  is 400 x 400.
\<close>

theorem thumbnail_fits_and_keeps_aspect:
  assumes "1 \<le> w" "1 \<le> h"
  shows "\<exists>img. generate_product_image env p (w, h) = Inr img
           \<and> img_width img = w \<and> img_height img = h
           \<and> max (img_width (Image_thumbnail env img (400, 400)))
                  (img_height (Image_thumbnail env img (400, 400))) \<le> 400
           \<and> 1 \<le> img_width (Image_thumbnail env img (400, 400))
           \<and> 1 \<le> img_height (Image_thumbnail env img (400, 400))
           \<and> \<bar>img_width (Image_thumbnail env img (400, 400)) * h
                - img_height (Image_thumbnail env img (400, 400)) * w\<bar> \<le> max w h
           \<and> (w = 800 \<and> h = 800 \<longrightarrow>
                 img_width (Image_thumbnail env img (400, 400)) = 400
                 \<and> img_height (Image_thumbnail env img (400, 400)) = 400)"
proof -
  let ?c = "dict_get GRADE_COLORS (grade p) PREMIUM"
  obtain img where img: "generate_product_image env p (w, h) = Inr img"
    "img_width img = w" "img_height img = h"
    unfolding generate_product_image_eq
    using compose_product_image_ok [OF assms, of env p ?c] by auto
  let ?t = "Image_thumbnail env img (400, 400)"
  have d: "img_width ?t = fst (thumbnail_size (w, h) (400, 400))"
    "img_height ?t = snd (thumbnail_size (w, h) (400, 400))"
    using Image_thumbnail_dims [of env img "(400, 400)"] by (simp_all add: img prod_eq_iff)
  have b: "(1::int) \<le> 400" by simp
  note tb = thumbnail_size_bounds [OF assms b b]
  have "max (img_width ?t) (img_height ?t) \<le> 400"
    using tb(1,2) by (simp add: d)
  moreover have "1 \<le> img_width ?t" "1 \<le> img_height ?t"
    using tb(3,4) by (simp_all add: d)
  moreover have "\<bar>img_width ?t * h - img_height ?t * w\<bar> \<le> max w h"
    using tb(5) by (simp add: d)
  moreover have "w = 800 \<and> h = 800 \<longrightarrow> img_width ?t = 400 \<and> img_height ?t = 400"
    by (simp add: d thumbnail_size_def)
  ultimately show ?thesis using img by blast
qed

theorem thumbnail_fits_and_keeps_aspect_witness:
  "(1::int) \<le> 800
   \<and> (\<exists>img. generate_product_image example_env (hd PRODUCTS_images) (800, 800) = Inr img
           \<and> img_width img = 800 \<and> img_height img = 800
           \<and> img_width (Image_thumbnail example_env img (400, 400)) = 400
           \<and> img_height (Image_thumbnail example_env img (400, 400)) = 400)"
proof -
  have a: "(1::int) \<le> 800" by simp
  from thumbnail_fits_and_keeps_aspect [OF a a, of example_env "hd PRODUCTS_images"]
  show ?thesis by auto
qed

lemma pdfs_dir_join:
  assumes "CHR ''/'' \<notin> set n" "n \<noteq> []"
  shows "path_join OUTPUT_DIR_pdfs n = OUTPUT_DIR_pdfs @ ''/'' @ n"
    and "parent_dir (path_join OUTPUT_DIR_pdfs n) = OUTPUT_DIR_pdfs"
proof -
  show j: "path_join OUTPUT_DIR_pdfs n = OUTPUT_DIR_pdfs @ ''/'' @ n"
    using assms by (intro path_join_plain) (simp_all add: OUTPUT_DIR_pdfs_def)
  show "parent_dir (path_join OUTPUT_DIR_pdfs n) = OUTPUT_DIR_pdfs"
    unfolding j using assms(1) by (rule parent_dir_join)
qed

lemma create_spec_sheet_ok:
  assumes "parent_dir path \<in> dirs w"
  shows "\<exists>w'. create_spec_sheet today w p path = Inr w'
           \<and> map fst (writes w') = map fst (writes w) @ [path] \<and> dirs w' = dirs w
           \<and> files w' path =
               Some \<lparr>doc_path = path, doc_pagesize = letter,
                     doc_margins = (fmul (float_lit (75 / 100)) inch, fmul (float_lit (75 / 100)) inch,
                                    fmul (float_lit (5 / 10)) inch, fmul (float_lit (5 / 10)) inch),
                     doc_story = spec_story today p\<rparr>"
  using assms by (simp add: create_spec_sheet_def write_file_def files_def)

lemma sheets_loop_paths:
  assumes "\<forall>p \<in> set ps. CHR ''/'' \<notin> set (slug p)" "OUTPUT_DIR_pdfs \<in> dirs w"
  shows "\<exists>w'. sheets_loop clock i w ps = Inr w'
           \<and> map fst (writes w') = map fst (writes w) @ pdf_paths (map slug ps)
           \<and> dirs w' = dirs w"
  using assms
proof (induction ps arbitrary: i w)
  case Nil
  show ?case by (simp add: pdf_paths_def)
next
  case (Cons p ps)
  let ?path = "path_join OUTPUT_DIR_pdfs (slug p @ ''-spec.pdf'')"
  from Cons.prems(1) have "CHR ''/'' \<notin> set (slug p @ ''-spec.pdf'')" by simp
  then have "parent_dir ?path = OUTPUT_DIR_pdfs" by (intro pdfs_dir_join) simp_all
  then have "parent_dir ?path \<in> dirs w" using Cons.prems(2) by simp
  from create_spec_sheet_ok [OF this, of "clock i" p]
  obtain w1 where w1: "create_spec_sheet (clock i) w p ?path = Inr w1"
    "map fst (writes w1) = map fst (writes w) @ [?path]" "dirs w1 = dirs w"
    by blast
  let ?w2 = "print w1 (''  '' @ CREATED_MARK @ '' Created: '' @ slug p @ ''-spec.pdf'')"
  have "\<exists>w'. sheets_loop clock (Suc i) ?w2 ps = Inr w'
           \<and> map fst (writes w') = map fst (writes ?w2) @ pdf_paths (map slug ps)
           \<and> dirs w' = dirs ?w2"
    using Cons.prems by (intro Cons.IH) (simp_all add: w1(3))
  then show ?case
    by (auto simp: Let_def w1 pdf_paths_def)
qed

lemma run_pdfs_paths:
  assumes "\<forall>p \<in> set ps. CHR ''/'' \<notin> set (slug p)"
  shows "\<exists>w'. run_pdfs clock ps w = Inr w'
           \<and> map fst (writes w') = map fst (writes w) @ pdf_paths (map slug ps)"
proof -
  let ?w0 = "print (makedirs w OUTPUT_DIR_pdfs) ''Generating PDF specification sheets...''"
  have "OUTPUT_DIR_pdfs \<in> dirs ?w0" by simp
  from sheets_loop_paths [OF assms this, of clock 0]
  show ?thesis by (auto simp: run_pdfs_def Let_def ebind_def)
qed

lemma dom_files_paths: "dom (files w) = set (map fst (writes w))"
  by (simp add: dom_files)

lemma same_slugs:
  assumes "map slug ps = map slug qs" "\<forall>p \<in> set ps. CHR ''/'' \<notin> set (slug p)"
  shows "\<forall>q \<in> set qs. CHR ''/'' \<notin> set (slug q)"
proof
  fix q
  assume "q \<in> set qs"
  then have "slug q \<in> set (map slug qs)" by simp
  then have "slug q \<in> set (map slug ps)" by (simp only: assms(1))
  then obtain p where "p \<in> set ps" "slug p = slug q" by auto
  then show "CHR ''/'' \<notin> set (slug q)" using assms(2) by metis
qed

lemma image_runs_same_paths:
  assumes "map slug ps = map slug qs" "\<forall>p \<in> set ps. CHR ''/'' \<notin> set (slug p)"
  shows "\<exists>w1 w2. run_images env ps w = Inr w1 \<and> run_images env' qs w1 = Inr w2
           \<and> map fst (writes w1) = map fst (writes w) @ image_paths (map slug ps)
           \<and> map fst (writes w2) = map fst (writes w1) @ image_paths (map slug ps)
           \<and> dom (files w2) = dom (files w1)"
proof -
  have sv: "map fst (saves u) = map fst (writes u)" for u :: "saved_image world"
    by (simp add: saves_def split_def)
  note q = same_slugs [OF assms]
  obtain w1 where w1: "run_images env ps w = Inr w1"
    "map fst (writes w1) = map fst (writes w) @ image_paths (map slug ps)"
    using run_images_paths [OF assms(2), of env w] by (auto simp: sv)
  obtain w2 where w2: "run_images env' qs w1 = Inr w2"
    "map fst (writes w2) = map fst (writes w1) @ image_paths (map slug qs)"
    using run_images_paths [OF q, of env' w1] by (auto simp: sv)
  have "dom (files w2) = dom (files w1)"
    by (auto simp: dom_files_paths w2(2) w1(2) assms(1))
  then show ?thesis
    using w1 w2 assms(1) by auto
qed

lemma pdf_runs_same_paths:
  assumes "map slug sps = map slug sqs" "\<forall>p \<in> set sps. CHR ''/'' \<notin> set (slug p)"
  shows "\<exists>v1 v2. run_pdfs clock sps v = Inr v1 \<and> run_pdfs clock' sqs v1 = Inr v2
           \<and> map fst (writes v1) = map fst (writes v) @ pdf_paths (map slug sps)
           \<and> map fst (writes v2) = map fst (writes v1) @ pdf_paths (map slug sps)
           \<and> dom (files v2) = dom (files v1)"
proof -
  note q = same_slugs [OF assms]
  obtain v1 where v1: "run_pdfs clock sps v = Inr v1"
    "map fst (writes v1) = map fst (writes v) @ pdf_paths (map slug sps)"
    using run_pdfs_paths [OF assms(2), of clock v] by auto
  obtain v2 where v2: "run_pdfs clock' sqs v1 = Inr v2"
    "map fst (writes v2) = map fst (writes v1) @ pdf_paths (map slug sqs)"
    using run_pdfs_paths [OF q, of clock' v1] by auto
  have "dom (files v2) = dom (files v1)"
    by (auto simp: dom_files_paths v2(2) v1(2) assms(1))
  then show ?thesis
    using v1 v2 assms(1) by auto
qed

lemma PRODUCTS_pdfs_slugs: "\<forall>p \<in> set PRODUCTS_pdfs. CHR ''/'' \<notin> set (slug p)"
  by (simp add: PRODUCTS_pdfs_def)

subsection \<open>Paths are functions of the slug\<close>

text \<open>
  Claim C7.  The paths a pipeline writes are computed from the slugs alone:
  \<open>slug.jpg\<close> and \<open>slug-thumb.jpg\<close> for the image driver, \<open>slug-spec.pdf\<close> for the
  document driver.  Two runs over catalogues with the same slugs (file name stems
  without a slash), whatever the other fields, the fonts of the machine or the date,
  write the same paths in the same order, and the second run leaves the set of files as
  the first run left it.
\<close>

theorem output_paths_depend_on_slug_only:
  assumes "map slug ps = map slug qs" "\<forall>p \<in> set ps. CHR ''/'' \<notin> set (slug p)"
    and "map slug sps = map slug sqs" "\<forall>p \<in> set sps. CHR ''/'' \<notin> set (slug p)"
  shows "(\<exists>w1 w2. run_images env ps w = Inr w1 \<and> run_images env' qs w1 = Inr w2
            \<and> map fst (writes w1) = map fst (writes w) @ image_paths (map slug ps)
            \<and> map fst (writes w2) = map fst (writes w1) @ image_paths (map slug ps)
            \<and> dom (files w2) = dom (files w1))
         \<and> (\<exists>v1 v2. run_pdfs clock sps v = Inr v1 \<and> run_pdfs clock' sqs v1 = Inr v2
            \<and> map fst (writes v1) = map fst (writes v) @ pdf_paths (map slug sps)
            \<and> map fst (writes v2) = map fst (writes v1) @ pdf_paths (map slug sps)
            \<and> dom (files v2) = dom (files v1))"
  using image_runs_same_paths [OF assms(1,2)] pdf_runs_same_paths [OF assms(3,4)]
  by blast

theorem output_paths_depend_on_slug_only_witness:
  "map slug PRODUCTS_images = map slug PRODUCTS_images
   \<and> map slug PRODUCTS_pdfs = map slug PRODUCTS_pdfs
   \<and> (\<exists>w1 w2. main_images example_env empty_world = Inr w1 \<and> main_images example_env w1 = Inr w2
         \<and> map fst (writes w1) = image_paths (map slug PRODUCTS_images)
         \<and> map fst (writes w2) = image_paths (map slug PRODUCTS_images) @ image_paths (map slug PRODUCTS_images)
         \<and> dom (files w2) = dom (files w1))
   \<and> (\<exists>v1 v2. main_pdfs (\<lambda>i. ''2026-01-01'') empty_world = Inr v1
         \<and> main_pdfs (\<lambda>i. ''2026-01-02'') v1 = Inr v2
         \<and> map fst (writes v1) = pdf_paths (map slug PRODUCTS_pdfs)
         \<and> dom (files v2) = dom (files v1))"
proof -
  have e: "writes (empty_world :: saved_image world) = []" "writes (empty_world :: pdf_doc world) = []"
    by (simp_all add: empty_world_def)
  from output_paths_depend_on_slug_only
         [OF refl PRODUCTS_images_slugs refl PRODUCTS_pdfs_slugs, of example_env empty_world
            example_env "\<lambda>i. ''2026-01-01''" empty_world "\<lambda>i. ''2026-01-02''"]
  show ?thesis
    unfolding main_images_def main_pdfs_def by (auto simp: e)
qed

lemma styles_distinct [simp]:
  "SectionHeader \<noteq> SpecBodyText" "SpecBodyText \<noteq> SectionHeader"
  "SectionHeader \<noteq> SpecSmallText" "SpecSmallText \<noteq> SectionHeader"
  by (simp_all add: SectionHeader_def SpecBodyText_def SpecSmallText_def)

lemma cert_header_elsewhere:
  "Paragraph ''CERTIFICATIONS'' SectionHeader \<notin> set (header_blocks p)"
  "Paragraph ''CERTIFICATIONS'' SectionHeader \<notin> set (fixed_sections p)"
  "Paragraph ''CERTIFICATIONS'' SectionHeader \<notin> set (uses_section p)"
  "Paragraph ''CERTIFICATIONS'' SectionHeader \<notin> set (closing_blocks today p)"
  by (simp_all add: header_blocks_def fixed_sections_def uses_section_def closing_blocks_def)

lemma cert_header_iff:
  "Paragraph ''CERTIFICATIONS'' SectionHeader \<in> set (spec_story today p) \<longleftrightarrow> certifications p \<noteq> []"
  by (simp add: spec_story_def cert_header_elsewhere certifications_section_def Let_def)

section \<open>The specification sheet\<close>

text \<open>
  Claim C6.  The sheet written for a record contains the Certifications header if and
  only if the record's list of certifications is not empty; then the header is followed
  by one paragraph holding all the entries joined by the bullet separator.  The
  Recommended Uses header is always there, followed by the uses joined by the same
  separator.
\<close>

theorem certifications_iff_nonempty:
  "(parent_dir path \<in> dirs w \<longrightarrow>
      (\<exists>w' doc. create_spec_sheet today w p path = Inr w' \<and> files w' path = Some doc
          \<and> doc_story doc = spec_story today p))
   \<and> (Paragraph ''CERTIFICATIONS'' SectionHeader \<in> set (spec_story today p)
        \<longleftrightarrow> certifications p \<noteq> [])
   \<and> (certifications p \<noteq> [] \<longrightarrow>
        adjacent [Paragraph ''CERTIFICATIONS'' SectionHeader,
                  Paragraph (CERT_MARK @ '' '' @ join BULLET_SEP (certifications p)) SpecBodyText]
          (spec_story today p))
   \<and> adjacent [Paragraph ''RECOMMENDED USES'' SectionHeader,
                Paragraph (join BULLET_SEP (uses p)) SpecBodyText]
        (spec_story today p)"
proof -
  have u: "adjacent [Paragraph ''RECOMMENDED USES'' SectionHeader,
                Paragraph (join BULLET_SEP (uses p)) SpecBodyText] (spec_story today p)"
    unfolding adjacent_def
    by (rule exI [of _ "header_blocks p @ fixed_sections p @ certifications_section p"],
        rule exI [of _ "Spacer 1 (fmul (float_lit (2 / 10)) inch) # closing_blocks today p"])
       (simp add: spec_story_def uses_section_def)
  have c: "adjacent [Paragraph ''CERTIFICATIONS'' SectionHeader,
                  Paragraph (CERT_MARK @ '' '' @ join BULLET_SEP (certifications p)) SpecBodyText]
          (spec_story today p)" if "certifications p \<noteq> []"
    unfolding adjacent_def
    by (rule exI [of _ "header_blocks p @ fixed_sections p"],
        rule exI [of _ "Spacer 1 (fmul (float_lit (2 / 10)) inch) # uses_section p @ closing_blocks today p"])
       (simp add: spec_story_def certifications_section_def that)
  have f: "\<exists>w' doc. create_spec_sheet today w p path = Inr w' \<and> files w' path = Some doc
          \<and> doc_story doc = spec_story today p" if "parent_dir path \<in> dirs w"
    using create_spec_sheet_ok [OF that, of today p] by auto
  show ?thesis
    using u c f cert_header_iff [of today p] by blast
qed

lemma join_examples:
  "join BULLET_SEP [''a'', ''b'', ''c''] = ''a'' @ BULLET_SEP @ ''b'' @ BULLET_SEP @ ''c''"
  "join BULLET_SEP [''a''] = ''a''"
  by simp_all

theorem certifications_iff_nonempty_witness:
  "parent_dir (OUTPUT_DIR_pdfs @ ''/classic-usucha-blend-spec.pdf'')
      \<in> dirs (makedirs (empty_world :: pdf_doc world) OUTPUT_DIR_pdfs)
   \<and> (\<exists>w' doc. create_spec_sheet ''2026-01-01'' (makedirs empty_world OUTPUT_DIR_pdfs)
                  (PRODUCTS_pdfs ! 2) (OUTPUT_DIR_pdfs @ ''/classic-usucha-blend-spec.pdf'') = Inr w'
          \<and> files w' (OUTPUT_DIR_pdfs @ ''/classic-usucha-blend-spec.pdf'') = Some doc
          \<and> doc_story doc = spec_story ''2026-01-01'' (PRODUCTS_pdfs ! 2))
   \<and> certifications (PRODUCTS_pdfs ! 2) \<noteq> []
   \<and> adjacent [Paragraph ''CERTIFICATIONS'' SectionHeader,
               Paragraph (CERT_MARK @ '' JAS Organic'') SpecBodyText]
        (spec_story ''2026-01-01'' (PRODUCTS_pdfs ! 2))
   \<and> certifications (PRODUCTS_pdfs ! 4) = []
   \<and> Paragraph ''CERTIFICATIONS'' SectionHeader \<notin> set (spec_story ''2026-01-01'' (PRODUCTS_pdfs ! 4))"
proof -
  have a: "certifications (PRODUCTS_pdfs ! 2) = [''JAS Organic'']"
    by (simp add: PRODUCTS_pdfs_def)
  have b: "certifications (PRODUCTS_pdfs ! 4) = []"
    by (simp add: PRODUCTS_pdfs_def)
  have d: "parent_dir (OUTPUT_DIR_pdfs @ ''/classic-usucha-blend-spec.pdf'') = OUTPUT_DIR_pdfs"
    using parent_dir_join [of "''classic-usucha-blend-spec.pdf''" OUTPUT_DIR_pdfs] by simp
  from certifications_iff_nonempty [of "OUTPUT_DIR_pdfs @ ''/classic-usucha-blend-spec.pdf''"
         "makedirs empty_world OUTPUT_DIR_pdfs" "''2026-01-01''" "PRODUCTS_pdfs ! 2"]
    certifications_iff_nonempty [of "''x''" empty_world "''2026-01-01''" "PRODUCTS_pdfs ! 4"]
  show ?thesis
    unfolding a b by (simp add: d)
qed

section \<open>Binary64 rounding\<close>

text \<open>
  The exponent found by \<open>ilog2\<close> brackets its argument, so \<open>rnd\<close> moves a value by at
  most half a unit in the last place; integers below \<open>2 ^ 53\<close> are not moved at all.
\<close>

lemma pow2_powi: "pow2 e = power_int 2 e"
  by (simp add: pow2_def power_int_def inverse_eq_divide power_one_over)

lemma pow2_pos [simp]: "0 < pow2 e"
  by (simp add: pow2_powi)

lemma pow2_nonzero [simp]: "pow2 e \<noteq> 0"
  by (metis pow2_pos less_irrefl)

lemma pow2_add: "pow2 (a + b) = pow2 a * pow2 b"
  by (simp add: pow2_powi power_int_add)

lemma pow2_mono: "a \<le> b \<Longrightarrow> pow2 a \<le> pow2 b"
  by (simp add: pow2_powi power_int_increasing)

lemma pow2_nat: "0 \<le> e \<Longrightarrow> pow2 e = 2 ^ nat e"
  by (simp add: pow2_def)

lemma pow2_neg: "pow2 (- e) = 1 / pow2 e"
  by (simp add: pow2_powi power_int_minus inverse_eq_divide)

lemma pow2_Suc: "pow2 (e + 1) = 2 * pow2 e"
proof -
  have "pow2 1 = 2" by (simp add: pow2_def)
  then show ?thesis by (simp add: pow2_add)
qed

lemma ilog2_bounds:
  assumes "0 < q"
  shows "pow2 (ilog2 q) \<le> q" and "q < pow2 (ilog2 q + 1)"
proof -
  have "pow2 (ilog2 q) \<le> q \<and> q < pow2 (ilog2 q + 1)"
  proof (cases "1 \<le> q")
    case True
    let ?m = "\<lfloor>q\<rfloor>"
    from True have m: "0 < ?m" by simp
    note b = bitlen_bounds [OF m]
    have bl: "1 \<le> bitlen ?m" using m by (simp add: bitlen_alt_def)
    have lo: "(2::rat) ^ nat (bitlen ?m - 1) \<le> of_int ?m"
      using b by (metis of_int_le_iff of_int_numeral of_int_power)
    have hi: "of_int (?m + 1) \<le> (2::rat) ^ nat (bitlen ?m)"
    proof -
      from b have "?m + 1 \<le> 2 ^ nat (bitlen ?m)" by simp
      then show ?thesis by (metis of_int_le_iff of_int_numeral of_int_power)
    qed
    have p1: "pow2 (bitlen ?m - 1) = 2 ^ nat (bitlen ?m - 1)"
      using bl by (simp add: pow2_nat)
    have "pow2 (bitlen ?m - 1) \<le> q"
      unfolding p1 using lo of_int_floor_le [of q] by linarith
    moreover have "q < pow2 (bitlen ?m - 1 + 1)"
    proof -
      have "q < of_int (?m + 1)" by linarith
      moreover have "pow2 (bitlen ?m - 1 + 1) = 2 ^ nat (bitlen ?m)"
        using bl by (simp add: pow2_nat)
      ultimately show ?thesis using hi by linarith
    qed
    ultimately show ?thesis using True by (simp add: ilog2_def)
  next
    case False
    with assms have q1: "q < 1" by simp
    let ?r = "1 / q"
    let ?m = "\<lceil>?r\<rceil> - 1"
    have r1: "1 < ?r" using assms q1 by (simp add: field_simps)
    then have "2 \<le> \<lceil>?r\<rceil>" by linarith
    then have m: "0 < ?m" by simp
    note b = bitlen_bounds [OF m]
    have bl: "1 \<le> bitlen ?m" using m by (simp add: bitlen_alt_def)
    have mr: "of_int ?m < ?r" "?r \<le> of_int ?m + 1"
      using ceiling_correct [of ?r] by simp_all
    have lo: "(2::rat) ^ nat (bitlen ?m - 1) \<le> of_int ?m"
      using b by (metis of_int_le_iff of_int_numeral of_int_power)
    have hi: "of_int ?m + 1 \<le> (2::rat) ^ nat (bitlen ?m)"
    proof -
      from b have "?m + 1 \<le> 2 ^ nat (bitlen ?m)" by simp
      then have "of_int (?m + 1) \<le> (2::rat) ^ nat (bitlen ?m)"
        by (metis of_int_le_iff of_int_numeral of_int_power)
      then show ?thesis by simp
    qed
    have p0: "pow2 (bitlen ?m) = 2 ^ nat (bitlen ?m)"
      using bl by (simp add: pow2_nat)
    have p1: "pow2 (bitlen ?m - 1) = 2 ^ nat (bitlen ?m - 1)"
      using bl by (simp add: pow2_nat)
    have rle: "?r \<le> pow2 (bitlen ?m)"
      unfolding p0 using mr(2) hi by linarith
    have rgt: "pow2 (bitlen ?m - 1) < ?r"
      unfolding p1 using mr(1) lo by linarith
    have "pow2 (- bitlen ?m) \<le> q"
    proof -
      from rle have "1 \<le> q * pow2 (bitlen ?m)"
        using assms by (simp add: field_simps)
      moreover have "pow2 (- bitlen ?m) * pow2 (bitlen ?m) = 1"
        using pow2_add [of "- bitlen ?m" "bitlen ?m"] by (simp add: pow2_def)
      ultimately have "pow2 (- bitlen ?m) * pow2 (bitlen ?m) \<le> q * pow2 (bitlen ?m)"
        by simp
      then show ?thesis
        using pow2_pos [of "bitlen ?m"] mult_le_cancel_right_pos by blast
    qed
    moreover have "q < pow2 (- bitlen ?m + 1)"
    proof -
      from rgt have "q * pow2 (bitlen ?m - 1) < 1"
        using assms by (simp add: field_simps)
      moreover have "pow2 (- bitlen ?m + 1) * pow2 (bitlen ?m - 1) = 1"
        using pow2_add [of "- bitlen ?m + 1" "bitlen ?m - 1"] by (simp add: pow2_def)
      ultimately have "q * pow2 (bitlen ?m - 1) < pow2 (- bitlen ?m + 1) * pow2 (bitlen ?m - 1)"
        by simp
      then show ?thesis
        using pow2_pos [of "bitlen ?m - 1"] mult_less_cancel_right_pos by blast
    qed
    ultimately show ?thesis using False by (simp add: ilog2_def)
  qed
  then show "pow2 (ilog2 q) \<le> q" and "q < pow2 (ilog2 q + 1)" by simp_all
qed

lemma ilog2_le:
  assumes "0 < q" "q \<le> pow2 k"
  shows "ilog2 q \<le> k"
proof (rule ccontr)
  assume "\<not> ilog2 q \<le> k"
  then have "k + 1 \<le> ilog2 q" by simp
  then have "pow2 (k + 1) \<le> pow2 (ilog2 q)" by (rule pow2_mono)
  also have "\<dots> \<le> q" using assms(1) by (rule ilog2_bounds)
  finally have "pow2 (k + 1) \<le> pow2 k" using assms(2) by simp
  then show False by (simp add: pow2_Suc)
qed

lemma ilog2_lt:
  assumes "0 < q" "q < pow2 k"
  shows "ilog2 q < k"
proof (rule ccontr)
  assume "\<not> ilog2 q < k"
  then have "pow2 k \<le> pow2 (ilog2 q)" by (simp add: pow2_mono)
  also have "\<dots> \<le> q" using assms(1) by (rule ilog2_bounds)
  finally show False using assms(2) by simp
qed

lemma round_half_even_err: "\<bar>of_int (round_half_even z) - z\<bar> \<le> 1 / 2"
proof -
  have "of_int \<lfloor>z\<rfloor> \<le> z" "z < of_int \<lfloor>z\<rfloor> + 1" by linarith+
  then show ?thesis
    by (auto simp: round_half_even_def Let_def abs_le_iff)
qed

lemma round_half_even_of_int [simp]: "round_half_even (of_int m) = m"
  by (simp add: round_half_even_def)

lemma round_half_even_nonneg: "0 \<le> z \<Longrightarrow> 0 \<le> round_half_even z"
  by (auto simp: round_half_even_def Let_def)

lemma rnd_zero [simp]: "rnd 0 = 0"
  by (simp add: rnd_def)

lemma rnd_nonneg: "0 \<le> q \<Longrightarrow> 0 \<le> rnd q"
  by (auto simp: rnd_def Let_def intro!: mult_nonneg_nonneg round_half_even_nonneg divide_nonneg_pos
      less_imp_le [OF pow2_pos])

lemma rnd_err:
  assumes "\<bar>q\<bar> \<le> pow2 k" "- 1021 \<le> k"
  shows "\<bar>rnd q - q\<bar> \<le> pow2 (k - 53)"
proof (cases "q = 0")
  case True
  then show ?thesis by (simp add: less_imp_le)
next
  case False
  define e where "e = max (ilog2 \<bar>q\<bar> - 52) (- 1074)"
  have r: "rnd q = of_int (round_half_even (q / pow2 e)) * pow2 e"
    using False by (simp add: rnd_def e_def Let_def)
  have "ilog2 \<bar>q\<bar> \<le> k" using False assms(1) by (intro ilog2_le) simp_all
  then have ek: "e \<le> k - 52" using assms(2) by (simp add: e_def)
  have "rnd q - q = (of_int (round_half_even (q / pow2 e)) - q / pow2 e) * pow2 e"
    by (simp add: r field_simps)
  then have "\<bar>rnd q - q\<bar> = \<bar>of_int (round_half_even (q / pow2 e)) - q / pow2 e\<bar> * pow2 e"
    by (simp only: abs_mult abs_of_pos [OF pow2_pos])
  also have "\<dots> \<le> 1 / 2 * pow2 e"
    by (intro mult_right_mono round_half_even_err) (simp add: less_imp_le)
  also have "\<dots> \<le> 1 / 2 * pow2 (k - 52)"
    using pow2_mono [OF ek] by simp
  also have "\<dots> = pow2 (k - 53)"
    using pow2_Suc [of "k - 53"] by simp
  finally show ?thesis .
qed

lemma rnd_of_int:
  assumes "\<bar>n\<bar> < 2 ^ 53"
  shows "rnd (of_int n) = of_int n"
proof (cases "n = 0")
  case True
  then show ?thesis by simp
next
  case False
  define e where "e = max (ilog2 \<bar>of_int n\<bar> - 52) (- 1074)"
  have pos: "(0::rat) < \<bar>of_int n\<bar>" using False by simp
  have "\<bar>of_int n :: rat\<bar> < 2 ^ 53"
  proof -
    have "of_int \<bar>n\<bar> < (of_int (2 ^ 53) :: rat)" using assms by (simp only: of_int_less_iff)
    then show ?thesis by simp
  qed
  then have "\<bar>of_int n :: rat\<bar> < pow2 53" by (simp add: pow2_def)
  then have "ilog2 \<bar>of_int n\<bar> < 53" using pos by (intro ilog2_lt)
  then have e0: "e \<le> 0" by (simp add: e_def)
  then have p: "pow2 e = 1 / 2 ^ nat (- e)"
    by (cases "e = 0") (simp_all add: pow2_def)
  have "of_int n / pow2 e = (of_int (n * 2 ^ nat (- e)) :: rat)"
    by (simp add: p)
  then have "round_half_even (of_int n / pow2 e) = n * 2 ^ nat (- e)"
    by (simp only: round_half_even_of_int)
  then have "rnd (of_int n) = of_int (n * 2 ^ nat (- e)) * pow2 e"
    using False by (simp add: rnd_def e_def [symmetric] Let_def)
  then show ?thesis by (simp add: p)
qed

lemma int_to_float_exact: "\<bar>n\<bar> < 2 ^ 53 \<Longrightarrow> int_to_float n = of_int n"
  by (simp add: int_to_float_def rnd_of_int)


section \<open>The blend of one channel\<close>

text \<open>
  The channel computed in binary64 lies within \<open>2 ^ - 41\<close> of the exact blend before
  truncation.  After truncation it is the exact truncated blend, or one less when the
  exact blend is a whole number and the rounded sum falls just below it.
\<close>

lemma scaled_err:
  fixes x y d :: rat and c :: int
  assumes "0 \<le> c" "c \<le> 255" "\<bar>x - y\<bar> \<le> d"
  shows "\<bar>of_int c * x - of_int c * y\<bar> \<le> 255 * d"
proof -
  have c: "(0::rat) \<le> of_int c" "(of_int c :: rat) \<le> 255" using assms by simp_all
  have d: "0 \<le> d" using assms(3) by linarith
  have "\<bar>of_int c * x - of_int c * y\<bar> = of_int c * \<bar>x - y\<bar>"
    using c(1) by (simp add: right_diff_distrib [symmetric] abs_mult)
  also have "\<dots> \<le> 255 * d"
    using c assms(3) d by (intro mult_mono) simp_all
  finally show ?thesis .
qed

lemma scaled_bound:
  fixes x d :: rat and c :: int
  assumes "0 \<le> c" "c \<le> 255" "\<bar>x\<bar> \<le> d"
  shows "\<bar>of_int c * x\<bar> \<le> 255 * d"
  using scaled_err [of c x 0 d] assms by simp

lemma py_int_bounds:
  "of_int (py_int s) \<le> (if 0 \<le> s then s else 0)" "s - 1 < of_int (py_int s)"
proof -
  show "of_int (py_int s) \<le> (if 0 \<le> s then s else 0)"
  proof (cases "0 \<le> s")
    case True
    then show ?thesis by (simp add: py_int_def)
  next
    case False
    then have "\<lceil>s\<rceil> \<le> 0" by (simp add: ceiling_le_iff)
    then have "(of_int \<lceil>s\<rceil> :: rat) \<le> 0" by simp
    then show ?thesis using False by (simp add: py_int_def)
  qed
  show "s - 1 < of_int (py_int s)"
  proof (cases "0 \<le> s")
    case True
    then show ?thesis unfolding py_int_def by simp linarith
  next
    case False
    have "s \<le> of_int \<lceil>s\<rceil>" by simp
    then show ?thesis using False unfolding py_int_def by simp linarith
  qed
qed

lemma blend_error:
  fixes c1 c2 a b :: int
  assumes c1: "0 \<le> c1" "c1 \<le> 255" and c2: "0 \<le> c2" "c2 \<le> 255"
    and ab: "0 \<le> a" "a < b"
  defines "v \<equiv> of_int c1 * (1 - of_int a / of_int b) + of_int c2 * (of_int a / of_int b) :: rat"
  shows "of_int (blend c1 c2 (rnd (of_int a / of_int b))) \<le> v + pow2 (- 41)"
    and "v - pow2 (- 41) - 1 < of_int (blend c1 c2 (rnd (of_int a / of_int b)))"
    and "0 \<le> blend c1 c2 (rnd (of_int a / of_int b))"
proof -
  define tau :: rat where "tau = of_int a / of_int b"
  define t where "t = rnd tau"
  define u where "u = rnd (1 - t)"
  define p1 where "p1 = rnd (of_int c1 * u)"
  define p2 where "p2 = rnd (of_int c2 * t)"
  define s where "s = rnd (p1 + p2)"
  have bl: "blend c1 c2 (rnd (of_int a / of_int b)) = py_int s"
    using c1 c2
    by (simp add: blend_def fadd_def fmul_def fsub_def int_to_float_exact s_def p1_def p2_def
        u_def t_def tau_def)
  have bpos: "(0::rat) < of_int b" using ab by simp
  have tau: "0 \<le> tau" "tau < 1"
    using ab bpos by (simp_all add: tau_def)
  have e53: "pow2 (- 53) = 1 / 2 ^ 53" by (simp add: pow2_def)
  have e45: "pow2 (- 45) = 1 / 2 ^ 45" by (simp add: pow2_def)
  have e43: "pow2 (- 43) = 1 / 2 ^ 43" by (simp add: pow2_def)
  have e41: "pow2 (- 41) = 1 / 2 ^ 41" by (simp add: pow2_def)
  have p0: "pow2 0 = 1" "pow2 8 = 256" "pow2 10 = 1024" by (simp_all add: pow2_def)
  have t_err: "\<bar>t - tau\<bar> \<le> pow2 (- 53)"
    unfolding t_def using rnd_err [of tau 0] tau by (simp add: p0)
  have t0: "0 \<le> t" unfolding t_def using tau by (intro rnd_nonneg)
  have t1: "t \<le> 1 + pow2 (- 53)" using t_err tau by linarith
  have e53le: "pow2 (- 53) \<le> 1" by (simp add: e53)
  have "\<bar>1 - t\<bar> \<le> pow2 0" unfolding p0 using t0 t1 e53le by linarith
  then have u_err: "\<bar>u - (1 - t)\<bar> \<le> pow2 (- 53)"
    unfolding u_def using rnd_err [of "1 - t" 0] by simp
  have u_tau: "\<bar>u - (1 - tau)\<bar> \<le> 2 * pow2 (- 53)" using u_err t_err by linarith
  have u_abs: "\<bar>u\<bar> \<le> 1 + 2 * pow2 (- 53)" using u_tau tau by linarith
  have t_abs: "\<bar>t\<bar> \<le> 1 + 2 * pow2 (- 53)" using t0 t1 pow2_pos [of "- 53"] by linarith
  have c1u: "\<bar>of_int c1 * u\<bar> \<le> 255 * (1 + 2 * pow2 (- 53))"
    using scaled_bound [OF c1 u_abs] .
  have c2t: "\<bar>of_int c2 * t\<bar> \<le> 255 * (1 + 2 * pow2 (- 53))"
    using scaled_bound [OF c2 t_abs] .
  have small: "255 * (1 + 2 * pow2 (- 53)) \<le> pow2 8" by (simp add: p0 e53)
  have p1_err: "\<bar>p1 - of_int c1 * u\<bar> \<le> pow2 (- 45)"
    unfolding p1_def using rnd_err [of "of_int c1 * u" 8] c1u small by simp
  have p2_err: "\<bar>p2 - of_int c2 * t\<bar> \<le> pow2 (- 45)"
    unfolding p2_def using rnd_err [of "of_int c2 * t" 8] c2t small by simp
  have e45le: "pow2 (- 45) \<le> 1" by (simp add: e45)
  have "\<bar>p1 + p2\<bar> \<le> pow2 10"
    unfolding p0 using p1_err p2_err c1u c2t small e45le unfolding p0 by linarith
  then have s_err: "\<bar>s - (p1 + p2)\<bar> \<le> pow2 (- 43)"
    unfolding s_def using rnd_err [of "p1 + p2" 10] by simp
  have d1: "\<bar>of_int c1 * u - of_int c1 * (1 - tau)\<bar> \<le> 255 * (2 * pow2 (- 53))"
    using scaled_err [OF c1 u_tau] .
  have d2: "\<bar>of_int c2 * t - of_int c2 * tau\<bar> \<le> 255 * pow2 (- 53)"
    using scaled_err [OF c2 t_err] .
  have v: "v = of_int c1 * (1 - tau) + of_int c2 * tau"
    by (simp add: v_def tau_def)
  have num: "pow2 (- 43) + 2 * pow2 (- 45) + 255 * (2 * pow2 (- 53)) + 255 * pow2 (- 53)
               \<le> pow2 (- 41)"
    by (simp add: e53 e45 e43 e41)
  have sv: "\<bar>s - v\<bar> \<le> pow2 (- 41)"
    unfolding v using s_err p1_err p2_err d1 d2 num by linarith
  have vnn: "0 \<le> v"
    unfolding v using c1 c2 tau by (intro add_nonneg_nonneg mult_nonneg_nonneg) simp_all
  have pp: "0 < pow2 (- 41)" by simp
  show "of_int (blend c1 c2 (rnd (of_int a / of_int b))) \<le> v + pow2 (- 41)"
  proof (cases "0 \<le> s")
    case True
    then show ?thesis unfolding bl using py_int_bounds(1) [of s] sv by (simp; linarith)
  next
    case False
    then show ?thesis unfolding bl using py_int_bounds(1) [of s] vnn pp by (simp; linarith)
  qed
  show "v - pow2 (- 41) - 1 < of_int (blend c1 c2 (rnd (of_int a / of_int b)))"
    unfolding bl using py_int_bounds(2) [of s] sv by linarith
  have small: "pow2 (- 41) < 1" by (simp add: e41)
  have s1: "- 1 < s" using sv vnn small by linarith
  show "0 \<le> blend c1 c2 (rnd (of_int a / of_int b))"
  proof (cases "0 \<le> s")
    case True
    then show ?thesis unfolding bl by (simp add: py_int_def)
  next
    case False
    have "0 \<le> \<lceil>s\<rceil>" using s1 by (simp add: le_ceiling_iff)
    then show ?thesis unfolding bl using False by (simp add: py_int_def)
  qed
qed

lemma blend_range:
  fixes c1 c2 a b :: int
  assumes c1: "0 \<le> c1" "c1 \<le> 255" and c2: "0 \<le> c2" "c2 \<le> 255"
    and ab: "0 \<le> a" "a < b"
  shows "0 \<le> blend c1 c2 (rnd (of_int a / of_int b))"
    and "blend c1 c2 (rnd (of_int a / of_int b)) \<le> 255"
proof -
  define r where "r = blend c1 c2 (rnd (of_int a / of_int b))"
  define tau :: rat where "tau = of_int a / of_int b"
  have bpos: "(0::rat) < of_int b" using ab by simp
  have tau: "0 \<le> tau" "tau < 1" using ab bpos by (simp_all add: tau_def)
  have k1: "(of_int c1 :: rat) \<le> 255" and k2: "(of_int c2 :: rat) \<le> 255" using c1 c2 by simp_all
  define A :: rat where "A = of_int c1 * (1 - tau)"
  define B :: rat where "B = of_int c2 * tau"
  have m1: "A \<le> 255 * (1 - tau)"
    unfolding A_def using k1 tau by (intro mult_right_mono) simp_all
  have m2: "B \<le> 255 * tau"
    unfolding B_def using k2 tau by (intro mult_right_mono) simp_all
  have up: "of_int r \<le> A + B + pow2 (- 41)"
    using blend_error(1) [OF c1 c2 ab] by (simp add: r_def tau_def A_def B_def)
  have small: "pow2 (- 41) < 1" by (simp add: pow2_def)
  have "255 * (1 - tau) + 255 * tau = (255 :: rat)" by (simp add: algebra_simps)
  then have ab255: "A + B \<le> 255" using m1 m2 by linarith
  have "(of_int r :: rat) < 256" using up ab255 small by linarith
  then have "(of_int r :: rat) < of_int 256" by simp
  then have "r < 256" by (simp only: of_int_less_iff)
  then show "blend c1 c2 (rnd (of_int a / of_int b)) \<le> 255" by (simp add: r_def)
  show "0 \<le> blend c1 c2 (rnd (of_int a / of_int b))"
    using c1 c2 ab by (rule blend_error(3))
qed

lemma clip_rgb_id: "is_rgb c \<Longrightarrow> clip_rgb c = c"
  by (auto simp: is_rgb_def clip_rgb_def clip8_def split: prod.splits)

lemma blend_rgb_is_rgb:
  fixes a b :: int
  assumes "is_rgb c" "is_rgb d" "0 \<le> a" "a < b"
  shows "is_rgb (blend_rgb c d (rnd (of_int a / of_int b)))"
proof -
  obtain r1 g1 b1 where cc: "c = (r1, g1, b1)" by (cases c) auto
  obtain r2 g2 b2 where dd: "d = (r2, g2, b2)" by (cases d) auto
  from assms(1) cc have rc: "0 \<le> r1" "r1 \<le> 255" "0 \<le> g1" "g1 \<le> 255" "0 \<le> b1" "b1 \<le> 255"
    by (simp_all add: is_rgb_def)
  from assms(2) dd have rd: "0 \<le> r2" "r2 \<le> 255" "0 \<le> g2" "g2 \<le> 255" "0 \<le> b2" "b2 \<le> 255"
    by (simp_all add: is_rgb_def)
  show ?thesis
    using blend_range [OF rc(1,2) rd(1,2) assms(3,4)] blend_range [OF rc(3,4) rd(3,4) assms(3,4)]
      blend_range [OF rc(5,6) rd(5,6) assms(3,4)]
    by (simp add: blend_rgb_def cc dd is_rgb_def)
qed

lemma gradient_blend_is_rgb:
  assumes "is_rgb c" "is_rgb d" "0 \<le> x \<and> x < w \<and> 0 \<le> y \<and> y < h"
  shows "is_rgb (blend_rgb c d (gradient_t dir w h x y))"
proof -
  have "is_rgb (blend_rgb c d (rnd (of_int (x + y) / of_int (w + h))))"
    using assms by (intro blend_rgb_is_rgb) simp_all
  moreover have "is_rgb (blend_rgb c d (rnd (of_int y / of_int h)))"
    using assms by (intro blend_rgb_is_rgb) simp_all
  moreover have "is_rgb (blend_rgb c d (rnd (of_int x / of_int w)))"
    using assms by (intro blend_rgb_is_rgb) simp_all
  ultimately show ?thesis by (simp add: gradient_t_def)
qed

text \<open>For RGB colours the clamp of the library changes nothing.\<close>

lemma create_gradient_pixels:
  assumes "0 < w" "0 < h" "is_rgb c1" "is_rgb c2"
  shows "\<exists>img. create_gradient w h c1 c2 d = Inr img \<and> img_width img = w \<and> img_height img = h
           \<and> img_ops img = []
           \<and> (\<forall>x y. 0 \<le> x \<and> x < w \<and> 0 \<le> y \<and> y < h \<longrightarrow>
                  img_px img (x, y) = blend_rgb c1 c2 (gradient_t d w h x y))"
proof -
  from create_gradient_pixels_clip [OF assms(1,2), of c1 c2 d]
  obtain img where im: "create_gradient w h c1 c2 d = Inr img" "img_width img = w"
    "img_height img = h" "img_ops img = []"
    and px: "\<And>x y. 0 \<le> x \<and> x < w \<and> 0 \<le> y \<and> y < h \<Longrightarrow>
        img_px img (x, y) = clip_rgb (blend_rgb c1 c2 (gradient_t d w h x y))"
    by blast
  have "img_px img (x, y) = blend_rgb c1 c2 (gradient_t d w h x y)"
    if "0 \<le> x \<and> x < w \<and> 0 \<le> y \<and> y < h" for x y
    unfolding px [OF that] by (rule clip_rgb_id) (rule gradient_blend_is_rgb [OF assms(3,4) that])
  with im show ?thesis by blast
qed


lemma blend_int_bounds:
  fixes c1 c2 a b :: int
  assumes c1: "0 \<le> c1" "c1 \<le> 255" and c2: "0 \<le> c2" "c2 \<le> 255"
    and ab: "0 \<le> a" "a < b" and b: "b \<le> 2 ^ 40"
  shows "b * blend c1 c2 (rnd (of_int a / of_int b)) \<le> c1 * (b - a) + c2 * a"
    and "c1 * (b - a) + c2 * a - b \<le> b * blend c1 c2 (rnd (of_int a / of_int b))"
proof -
  define r where "r = blend c1 c2 (rnd (of_int a / of_int b))"
  define v :: rat where "v = of_int c1 * (1 - of_int a / of_int b) + of_int c2 * (of_int a / of_int b)"
  define V where "V = c1 * (b - a) + c2 * a"
  have bpos: "(0::rat) < of_int b" using ab by simp
  have vV: "of_int b * v = of_int V"
    using bpos by (simp add: v_def V_def field_simps)
  have up: "of_int r \<le> v + pow2 (- 41)" and lo: "v - pow2 (- 41) - 1 < of_int r"
    using blend_error [OF c1 c2 ab] by (simp_all add: r_def v_def)
  have "(of_int b :: rat) \<le> of_int (2 ^ 40)" using b by (simp only: of_int_le_iff)
  then have b40: "(of_int b :: rat) \<le> 2 ^ 40" by simp
  have bd: "of_int b * pow2 (- 41) \<le> (1 / 2 :: rat)"
  proof -
    have "of_int b * pow2 (- 41) \<le> 2 ^ 40 * pow2 (- 41)"
      using b40 by (intro mult_right_mono) (simp_all add: less_imp_le)
    also have "\<dots> = 1 / 2" by (simp add: pow2_def)
    finally show ?thesis .
  qed
  have "of_int b * of_int r \<le> of_int b * (v + pow2 (- 41))"
    using up bpos by (intro mult_left_mono) simp_all
  then have "(of_int (b * r) :: rat) \<le> of_int V + 1 / 2"
    using bd by (simp add: distrib_left vV)
  then have "(of_int (b * r) :: rat) < of_int (V + 1)" by simp
  then have "b * r < V + 1" by (simp only: of_int_less_iff)
  then have u: "b * r \<le> V" by simp
  have "of_int b * (v - pow2 (- 41) - 1) < of_int b * of_int r"
    using lo bpos by (intro mult_strict_left_mono) simp_all
  then have "of_int V - 1 / 2 - of_int b < (of_int (b * r) :: rat)"
    using bd by (simp add: right_diff_distrib vV)
  then have "(of_int (V - b - 1) :: rat) < of_int (b * r)" by simp
  then have "V - b - 1 < b * r" by (simp only: of_int_less_iff)
  then have l: "V - b \<le> b * r" by simp
  show "b * blend c1 c2 (rnd (of_int a / of_int b)) \<le> c1 * (b - a) + c2 * a"
    using u by (simp add: r_def V_def)
  show "c1 * (b - a) + c2 * a - b \<le> b * blend c1 c2 (rnd (of_int a / of_int b))"
    using l by (simp add: r_def V_def)
qed

lemma blend_gap:
  fixes c1 c2 a b :: int
  assumes c1: "0 \<le> c1" "c1 \<le> 255" and c2: "0 \<le> c2" "c2 \<le> 255"
    and ab: "0 \<le> a" "a < b" and b: "b \<le> 2 ^ 40"
  shows "b * \<bar>blend c1 c2 (rnd (of_int a / of_int b)) - c2\<bar> \<le> (b - a) * \<bar>c1 - c2\<bar> + b"
proof -
  define r where "r = blend c1 c2 (rnd (of_int a / of_int b))"
  note bb = blend_int_bounds [OF c1 c2 ab b, folded r_def]
  have e: "c1 * (b - a) + c2 * a - b * c2 = (b - a) * (c1 - c2)"
    by (simp add: algebra_simps)
  have up: "b * (r - c2) \<le> (b - a) * (c1 - c2)"
    using bb(1) e by (simp add: right_diff_distrib)
  have lo: "(b - a) * (c1 - c2) - b \<le> b * (r - c2)"
    using bb(2) e by (simp add: right_diff_distrib)
  have m: "\<bar>(b - a) * (c1 - c2)\<bar> = (b - a) * \<bar>c1 - c2\<bar>"
    using ab by (simp add: abs_mult)
  have "\<bar>b * (r - c2)\<bar> \<le> \<bar>(b - a) * (c1 - c2)\<bar> + b"
    using up lo ab by linarith
  then show ?thesis
    using ab unfolding m r_def [symmetric] by (simp add: abs_mult)
qed

lemma blend_at_zero:
  assumes "0 \<le> c1" "c1 \<le> 255"
  shows "blend c1 c2 0 = c1"
proof -
  have one: "rnd 1 = 1" using rnd_of_int [of 1] by simp
  have c: "rnd (of_int c1) = of_int c1" using assms by (intro rnd_of_int) simp
  have "int_to_float 1 = 1" by (simp add: int_to_float_def one)
  then show ?thesis
    using assms by (simp add: blend_def fadd_def fmul_def fsub_def one c int_to_float_def py_int_def)
qed

lemma blend_explicit:
  assumes "0 \<le> c1" "c1 \<le> 255" "0 \<le> c2" "c2 \<le> 255"
  shows "blend c1 c2 t = py_int (fadd (fmul (of_int c1) (fsub 1 t)) (fmul (of_int c2) t))"
proof -
  have "int_to_float 1 = 1" using int_to_float_exact [of 1] by simp
  then show ?thesis using assms by (simp add: blend_def int_to_float_exact)
qed

lemma blend_half: "blend 0 255 (rnd (1 / 2)) = 127"
  by code_simp

lemma float_blend_below_exact: "blend 31 31 (rnd (42 / 362)) = 30"
  by code_simp


lemma blend_rgb_explicit:
  assumes "is_rgb c" "is_rgb d"
  shows "blend_rgb c d t =
     (py_int (fadd (fmul (of_int (fst c)) (fsub 1 t)) (fmul (of_int (fst d)) t)),
      py_int (fadd (fmul (of_int (fst (snd c))) (fsub 1 t)) (fmul (of_int (fst (snd d))) t)),
      py_int (fadd (fmul (of_int (snd (snd c))) (fsub 1 t)) (fmul (of_int (snd (snd d))) t)))"
  using assms by (auto simp: blend_rgb_def is_rgb_def blend_explicit split: prod.splits)

text \<open>
  Claim C1.  For every width and height at least 1, RGB colours \<open>color1\<close> and
  \<open>color2\<close> and each of the three directions, \<open>create_gradient\<close> returns a picture
  of that width and height in which each channel of the pixel \<open>(x, y)\<close> is
  \<^verbatim>\<open>int(c1 * (1 - t) + c2 * t)\<close>, computed in binary64, where \<open>t\<close> is
  \<^verbatim>\<open>(x + y) / (width + height)\<close> for diagonal, \<^verbatim>\<open>y / height\<close> for vertical and
  \<^verbatim>\<open>x / width\<close> for horizontal.
\<close>

theorem create_gradient_blend:
  assumes "1 \<le> width" "1 \<le> height" "is_rgb color1" "is_rgb color2"
    and "direction \<in> {''diagonal'', ''vertical'', ''horizontal''}"
  shows "\<exists>image. create_gradient width height color1 color2 direction = Inr image
           \<and> img_width image = width \<and> img_height image = height
           \<and> (\<forall>x y. 0 \<le> x \<and> x < width \<and> 0 \<le> y \<and> y < height \<longrightarrow>
                 (let t = (if direction = ''diagonal''
                           then rnd (of_int (x + y) / of_int (width + height))
                           else if direction = ''vertical'' then rnd (of_int y / of_int height)
                           else rnd (of_int x / of_int width))
                  in img_px image (x, y) =
                       (py_int (fadd (fmul (of_int (fst color1)) (fsub 1 t))
                                     (fmul (of_int (fst color2)) t)),
                        py_int (fadd (fmul (of_int (fst (snd color1))) (fsub 1 t))
                                     (fmul (of_int (fst (snd color2))) t)),
                        py_int (fadd (fmul (of_int (snd (snd color1))) (fsub 1 t))
                                     (fmul (of_int (snd (snd color2))) t)))))"
proof -
  from assms(1,2) have pos: "0 < width" "0 < height" by simp_all
  from create_gradient_pixels [OF pos assms(3,4), of direction]
  obtain image where im: "create_gradient width height color1 color2 direction = Inr image"
    "img_width image = width" "img_height image = height"
    "\<And>x y. 0 \<le> x \<and> x < width \<and> 0 \<le> y \<and> y < height \<Longrightarrow>
        img_px image (x, y) = blend_rgb color1 color2 (gradient_t direction width height x y)"
    by blast
  have px: "img_px image (x, y) =
      (py_int (fadd (fmul (of_int (fst color1)) (fsub 1 t)) (fmul (of_int (fst color2)) t)),
       py_int (fadd (fmul (of_int (fst (snd color1))) (fsub 1 t)) (fmul (of_int (fst (snd color2))) t)),
       py_int (fadd (fmul (of_int (snd (snd color1))) (fsub 1 t)) (fmul (of_int (snd (snd color2))) t)))"
    if "0 \<le> x \<and> x < width \<and> 0 \<le> y \<and> y < height" "t = gradient_t direction width height x y"
    for x y t
    unfolding im(4) [OF that(1)] that(2) by (rule blend_rgb_explicit [OF assms(3,4)])
  show ?thesis
    apply (rule exI [of _ image])
    apply (simp only: im(1,2,3) Let_def)
    apply (intro conjI allI impI refl)
    apply (rule px, assumption)
    apply (simp only: gradient_t_def)
    done
qed


theorem create_gradient_blend_witness:
  "(1::int) \<le> 800 \<and> is_rgb (160, 200, 120) \<and> is_rgb (85, 150, 80)
   \<and> ''diagonal'' \<in> {''diagonal'', ''vertical'', ''horizontal''}
   \<and> (\<exists>image. create_gradient 800 800 (160, 200, 120) (85, 150, 80) ''diagonal'' = Inr image
           \<and> img_width image = 800 \<and> img_height image = 800
           \<and> img_px image (400, 400) = (122, 175, 100))"
proof -
  have a: "(1::int) \<le> 800" by simp
  have c1: "is_rgb (160, 200, 120)" and c2: "is_rgb (85, 150, 80)" by (simp_all add: is_rgb_def)
  have d: "''diagonal'' \<in> {''diagonal'', ''vertical'', ''horizontal''}" by simp
  have t: "rnd (1 / 2) = 1 / 2" by code_simp
  have u: "fsub 1 (1 / 2) = 1 / 2" by code_simp
  have r: "py_int (fadd (fmul 160 (1 / 2)) (fmul 85 (1 / 2))) = 122"
    "py_int (fadd (fmul 200 (1 / 2)) (fmul 150 (1 / 2))) = 175"
    "py_int (fadd (fmul 120 (1 / 2)) (fmul 80 (1 / 2))) = 100"
    by code_simp+
  have "\<exists>image. create_gradient 800 800 (160, 200, 120) (85, 150, 80) ''diagonal'' = Inr image
           \<and> img_width image = 800 \<and> img_height image = 800
           \<and> img_px image (400, 400) = (122, 175, 100)"
    using create_gradient_blend [OF a a c1 c2 d]
    apply (elim exE conjE)
    subgoal for image
      apply (drule spec [of _ 400], drule spec [of _ 400])
      apply (rule exI [of _ image])
      apply (simp add: t u r Let_def)
      done
    done
  with a c1 c2 d show ?thesis by (intro conjI)
qed

section \<open>The ends of the gradient\<close>

lemma channel_gap_blend_rgb:
  fixes a b :: int
  assumes c: "is_rgb c" and d: "is_rgb d" and ab: "0 \<le> a" "a < b" and b: "b \<le> 2 ^ 40"
  shows "b * channel_gap (blend_rgb c d (rnd (of_int a / of_int b))) d
           \<le> (b - a) * channel_gap c d + b"
proof -
  obtain r1 g1 b1 where cc: "c = (r1, g1, b1)" by (cases c) auto
  obtain r2 g2 b2 where dd: "d = (r2, g2, b2)" by (cases d) auto
  let ?t = "rnd (of_int a / of_int b)"
  let ?G = "channel_gap c d"
  from c cc have rc: "0 \<le> r1" "r1 \<le> 255" "0 \<le> g1" "g1 \<le> 255" "0 \<le> b1" "b1 \<le> 255"
    by (simp_all add: is_rgb_def)
  from d dd have rd: "0 \<le> r2" "r2 \<le> 255" "0 \<le> g2" "g2 \<le> 255" "0 \<le> b2" "b2 \<le> 255"
    by (simp_all add: is_rgb_def)
  have G: "\<bar>r1 - r2\<bar> \<le> ?G" "\<bar>g1 - g2\<bar> \<le> ?G" "\<bar>b1 - b2\<bar> \<le> ?G"
    by (simp_all add: channel_gap_def cc dd)
  have ba: "0 \<le> b - a" using ab by simp
  have m: "(b - a) * x \<le> (b - a) * ?G" if "x \<le> ?G" for x
    using that ba by (rule mult_left_mono)
  have R: "b * \<bar>blend r1 r2 ?t - r2\<bar> \<le> (b - a) * ?G + b"
    using blend_gap [OF rc(1,2) rd(1,2) ab b] m [OF G(1)] by linarith
  have Gr: "b * \<bar>blend g1 g2 ?t - g2\<bar> \<le> (b - a) * ?G + b"
    using blend_gap [OF rc(3,4) rd(3,4) ab b] m [OF G(2)] by linarith
  have B: "b * \<bar>blend b1 b2 ?t - b2\<bar> \<le> (b - a) * ?G + b"
    using blend_gap [OF rc(5,6) rd(5,6) ab b] m [OF G(3)] by linarith
  have "channel_gap (blend_rgb c d ?t) d
          = max \<bar>blend r1 r2 ?t - r2\<bar> (max \<bar>blend g1 g2 ?t - g2\<bar> \<bar>blend b1 b2 ?t - b2\<bar>)"
    by (simp add: channel_gap_def blend_rgb_def cc dd)
  then have "channel_gap (blend_rgb c d ?t) d = \<bar>blend r1 r2 ?t - r2\<bar>
     \<or> channel_gap (blend_rgb c d ?t) d = \<bar>blend g1 g2 ?t - g2\<bar>
     \<or> channel_gap (blend_rgb c d ?t) d = \<bar>blend b1 b2 ?t - b2\<bar>"
    by (simp add: max_def)
  then show ?thesis using R Gr B by auto
qed

lemma blend_rgb_at_zero: "is_rgb c \<Longrightarrow> blend_rgb c d 0 = c"
  by (auto simp: blend_rgb_def is_rgb_def blend_at_zero split: prod.splits)

lemma gradient_t_origin: "gradient_t direction w h 0 0 = 0"
  by (simp add: gradient_t_def)

lemma gradient_boundary:
  assumes "1 \<le> width" "1 \<le> height" "width + height \<le> 2 ^ 40"
    and "is_rgb color1" "is_rgb color2"
  shows "\<exists>image. create_gradient width height color1 color2 direction = Inr image
           \<and> img_px image (0, 0) = color1
           \<and> (direction = ''diagonal'' \<longrightarrow>
                 (width + height) * channel_gap (img_px image (width - 1, height - 1)) color2
                   \<le> 2 * channel_gap color1 color2 + (width + height))
           \<and> (direction = ''vertical'' \<longrightarrow>
                 (\<forall>x. 0 \<le> x \<and> x < width \<longrightarrow>
                    height * channel_gap (img_px image (x, height - 1)) color2
                      \<le> channel_gap color1 color2 + height))
           \<and> (direction = ''horizontal'' \<longrightarrow>
                 (\<forall>y. 0 \<le> y \<and> y < height \<longrightarrow>
                    width * channel_gap (img_px image (width - 1, y)) color2
                      \<le> channel_gap color1 color2 + width))"
proof -
  from assms(1,2) have pos: "0 < width" "0 < height" by simp_all
  from create_gradient_pixels [OF pos assms(4,5), of direction]
  obtain image where im: "create_gradient width height color1 color2 direction = Inr image"
    and px: "\<And>x y. 0 \<le> x \<and> x < width \<and> 0 \<le> y \<and> y < height \<Longrightarrow>
        img_px image (x, y) = blend_rgb color1 color2 (gradient_t direction width height x y)"
    by blast
  have wb: "width \<le> 2 ^ 40" "height \<le> 2 ^ 40" using assms(1,2,3) by simp_all
  have o: "img_px image (0, 0) = color1"
    using px [of 0 0] pos by (simp add: gradient_t_origin blend_rgb_at_zero [OF assms(4)])
  have dg: "(width + height) * channel_gap (img_px image (width - 1, height - 1)) color2
                   \<le> 2 * channel_gap color1 color2 + (width + height)"
    if "direction = ''diagonal''"
  proof -
    have t: "gradient_t direction width height (width - 1) (height - 1)
               = rnd (of_int (width + height - 2) / of_int (width + height))"
      by (simp add: gradient_t_def that algebra_simps)
    have "(width + height) * channel_gap (blend_rgb color1 color2
              (rnd (of_int (width + height - 2) / of_int (width + height)))) color2
            \<le> (width + height - (width + height - 2)) * channel_gap color1 color2 + (width + height)"
      using assms(1,2) by (intro channel_gap_blend_rgb assms) simp_all
    then show ?thesis using px [of "width - 1" "height - 1"] pos by (simp add: t)
  qed
  have vt: "height * channel_gap (img_px image (x, height - 1)) color2
                      \<le> channel_gap color1 color2 + height"
    if "direction = ''vertical''" "0 \<le> x \<and> x < width" for x
  proof -
    have t: "gradient_t direction width height x (height - 1)
               = rnd (of_int (height - 1) / of_int height)"
      by (simp add: gradient_t_def that)
    have "height * channel_gap (blend_rgb color1 color2
              (rnd (of_int (height - 1) / of_int height))) color2
            \<le> (height - (height - 1)) * channel_gap color1 color2 + height"
      using assms(2) wb by (intro channel_gap_blend_rgb assms) simp_all
    then show ?thesis using px [of x "height - 1"] pos that(2) by (simp add: t)
  qed
  have hz: "width * channel_gap (img_px image (width - 1, y)) color2
                      \<le> channel_gap color1 color2 + width"
    if "direction = ''horizontal''" "0 \<le> y \<and> y < height" for y
  proof -
    have t: "gradient_t direction width height (width - 1) y
               = rnd (of_int (width - 1) / of_int width)"
      by (simp add: gradient_t_def that)
    have "width * channel_gap (blend_rgb color1 color2
              (rnd (of_int (width - 1) / of_int width))) color2
            \<le> (width - (width - 1)) * channel_gap color1 color2 + width"
      using assms(1) wb by (intro channel_gap_blend_rgb assms) simp_all
    then show ?thesis using px [of "width - 1" y] pos that(2) by (simp add: t)
  qed
  show ?thesis
    using im o dg vt hz by blast
qed

lemma horizontal_2x1_last_pixel:
  "img_px (projr (create_gradient 2 1 (0, 0, 0) (255, 255, 255) ''horizontal'')) (1, 0)
     = (127, 127, 127)"
proof -
  from create_gradient_pixels [of 2 1 "(0, 0, 0)" "(255, 255, 255)" "''horizontal''"]
  obtain image where im: "create_gradient 2 1 (0, 0, 0) (255, 255, 255) ''horizontal'' = Inr image"
    and px: "\<And>x y. 0 \<le> x \<and> x < 2 \<and> 0 \<le> y \<and> y < 1 \<Longrightarrow>
        img_px image (x, y) = blend_rgb (0, 0, 0) (255, 255, 255) (gradient_t ''horizontal'' 2 1 x y)"
    by (auto simp: is_rgb_def)
  have t: "gradient_t ''horizontal'' 2 1 1 0 = rnd (1 / 2)"
    by (simp add: gradient_t_def)
  show ?thesis
    using px [of 1 0] by (simp add: im t blend_rgb_def blend_half)
qed

text \<open>
  Claim C4, as amended.  For width and height at least 1 and RGB colours, the pixel
  \<open>(0, 0)\<close> is \<open>color1\<close> exactly.  The last pixel along the axis is not at \<open>t = 1\<close>
  but at \<open>t = 1 - 1 / n\<close>, where \<open>n\<close> is the width (horizontal) or the height
  (vertical), and at \<open>t = 1 - 2 / (width + height)\<close> for diagonal; each of its channels
  differs from that of \<open>color2\<close> by at most \<open>gap / n + 1\<close>, resp.
  \<open>2 * gap / (width + height) + 1\<close>, where \<open>gap\<close> is the largest channel difference
  between the two colours.  (Stated for \<open>width + height\<close> up to \<open>2 ^ 40\<close>.)
\<close>

theorem gradient_boundary_pixels:
  assumes "1 \<le> width" "1 \<le> height" "width + height \<le> 2 ^ 40"
    and "is_rgb color1" "is_rgb color2"
  shows "\<exists>image. create_gradient width height color1 color2 direction = Inr image
           \<and> img_px image (0, 0) = color1
           \<and> (direction = ''diagonal'' \<longrightarrow>
                 (width + height) * channel_gap (img_px image (width - 1, height - 1)) color2
                   \<le> 2 * channel_gap color1 color2 + (width + height))
           \<and> (direction = ''vertical'' \<longrightarrow>
                 (\<forall>x. 0 \<le> x \<and> x < width \<longrightarrow>
                    height * channel_gap (img_px image (x, height - 1)) color2
                      \<le> channel_gap color1 color2 + height))
           \<and> (direction = ''horizontal'' \<longrightarrow>
                 (\<forall>y. 0 \<le> y \<and> y < height \<longrightarrow>
                    width * channel_gap (img_px image (width - 1, y)) color2
                      \<le> channel_gap color1 color2 + width))"
  using assms by (rule gradient_boundary)

theorem gradient_boundary_pixels_witness:
  "(1::int) \<le> 800 \<and> (800::int) + 800 \<le> 2 ^ 40
   \<and> is_rgb (160, 200, 120) \<and> is_rgb (85, 150, 80)
   \<and> (\<exists>image. create_gradient 800 800 (160, 200, 120) (85, 150, 80) ''diagonal'' = Inr image
         \<and> img_px image (0, 0) = (160, 200, 120)
         \<and> channel_gap (img_px image (799, 799)) (85, 150, 80) \<le> 1)"
proof -
  have a: "(1::int) \<le> 800" by simp
  have b: "(800::int) + 800 \<le> 2 ^ 40" by simp
  have c1: "is_rgb (160, 200, 120)" and c2: "is_rgb (85, 150, 80)" by (simp_all add: is_rgb_def)
  have g: "channel_gap (160, 200, 120) (85, 150, 80) = 75" by (simp add: channel_gap_def)
  have "\<exists>image. create_gradient 800 800 (160, 200, 120) (85, 150, 80) ''diagonal'' = Inr image
         \<and> img_px image (0, 0) = (160, 200, 120)
         \<and> channel_gap (img_px image (799, 799)) (85, 150, 80) \<le> 1"
    using gradient_boundary_pixels [OF a a b c1 c2, of "''diagonal''"]
    apply (elim exE conjE)
    subgoal for image
      apply (rule exI [of _ image])
      apply (simp add: g)
      done
    done
  with a b c1 c2 show ?thesis by (intro conjI)
qed

text \<open>
  The last pixel need not be near \<open>color2\<close>: in a 2 x 1 horizontal gradient from black
  to white it is (127, 127, 127), which is 128 away.
\<close>

theorem last_pixel_not_color2_counterexample:
  "channel_gap (img_px (projr (create_gradient 2 1 (0, 0, 0) (255, 255, 255) ''horizontal''))
      (2 - 1, 0)) (255, 255, 255) = 128"
  using horizontal_2x1_last_pixel by (simp add: channel_gap_def)

end
